theory Spec2Isabelle
  imports Complex_Main
begin

section \<open>JavaScript numbers and JSON values\<close>

text \<open>
  A JavaScript number is a finite value, one of the two infinities, or NaN. Finite values
  are reals. The rounding of a result to the 53-bit mantissa of a double is modelled in the
  interpolation of getCurrent, where the values returned are compared with the values
  stored (\<open>round64\<close> below); in the other computations an operation on finite values
  is the operation of the reals. The sign of zero is not modelled. What the program can
  observe of the special values (a NaN or a zero is falsy, a comparison with NaN is false,
  arithmetic propagates NaN) is modelled.
\<close>

datatype num = Fin real | PInf | NInf | NaN

fun is_fin :: "num \<Rightarrow> bool" where
  "is_fin (Fin r) = True"
| "is_fin PInf = False"
| "is_fin NInf = False"
| "is_fin NaN = False"

fun truthy_num :: "num \<Rightarrow> bool" where
  "truthy_num (Fin r) = (r \<noteq> 0)"
| "truthy_num PInf = True"
| "truthy_num NInf = True"
| "truthy_num NaN = False"

text \<open>The idiom \<^verbatim>\<open>x || d\<close> on a number \<open>x\<close>.\<close>

definition num_or :: "num \<Rightarrow> num \<Rightarrow> num" where
  "num_or x d = (if truthy_num x then x else d)"

text \<open>
  A parsed JSON document. A JavaScript value that may be \<^verbatim>\<open>undefined\<close> (a missing
  array element, a missing member) is a \<open>json option\<close>, with \<open>None\<close> for
  \<^verbatim>\<open>undefined\<close>.
\<close>

datatype json =
    JNull
  | JBool bool
  | JNum num
  | JStr string
  | JArr "json list"
  | JObj "(string \<times> json) list"

fun truthy :: "json option \<Rightarrow> bool" where
  "truthy None = False"
| "truthy (Some JNull) = False"
| "truthy (Some (JBool b)) = b"
| "truthy (Some (JNum n)) = truthy_num n"
| "truthy (Some (JStr s)) = (s \<noteq> [])"
| "truthy (Some (JArr xs)) = True"
| "truthy (Some (JObj kvs)) = True"

fun string_of_nat :: "nat \<Rightarrow> string" where
  "string_of_nat n =
     (if n < 10 then [char_of (48 + n)]
      else string_of_nat (n div 10) @ [char_of (48 + n mod 10)])"

text \<open>
  \<^verbatim>\<open>r[k]\<close> for a value \<open>r\<close> that is neither null nor undefined. Of a duplicated
  key of an object, JSON.parse keeps the last value.
\<close>

fun js_index :: "json \<Rightarrow> nat \<Rightarrow> json option" where
  "js_index (JArr xs) k = (if k < length xs then Some (xs ! k) else None)"
| "js_index (JStr s) k = (if k < length s then Some (JStr [s ! k]) else None)"
| "js_index (JObj kvs) k = map_of (rev kvs) (string_of_nat k)"
| "js_index (JNum n) k = None"
| "js_index (JBool b) k = None"
| "js_index JNull k = None"

text \<open>\<^verbatim>\<open>r.name\<close> for the member names the program reads (time_tag, flux).\<close>

fun js_member :: "json \<Rightarrow> string \<Rightarrow> json option" where
  "js_member (JObj kvs) name = map_of (rev kvs) name"
| "js_member (JArr xs) name = None"
| "js_member (JStr s) name = None"
| "js_member (JNum n) name = None"
| "js_member (JBool b) name = None"
| "js_member JNull name = None"

subsection \<open>parseFloat\<close>

text \<open>
  The white space that parseFloat skips. A character of a string is a code unit below 256
  here: of the white space of JavaScript these are the space, the tab, the two line ends,
  the vertical tab, the form feed and the no-break space; the white space above 255 (the
  byte order mark, the line and paragraph separators, the other spaces of Unicode) is not
  in the model.
\<close>

definition is_ws :: "char \<Rightarrow> bool" where
  "is_ws c = (c = CHR '' '' \<or> c = CHR 0x09 \<or> c = CHR 0x0A \<or> c = CHR 0x0B
              \<or> c = CHR 0x0C \<or> c = CHR 0x0D \<or> c = CHR 0xA0)"

definition is_digit :: "char \<Rightarrow> bool" where
  "is_digit c = (48 \<le> (of_char c :: nat) \<and> (of_char c :: nat) \<le> 57)"

definition digits_val :: "string \<Rightarrow> nat" where
  "digits_val ds = foldl (\<lambda>a c. 10 * a + (of_char c - 48)) 0 ds"

text \<open>
  The range of a double: a magnitude of at least \<open>2^1024 - 2^970\<close> rounds to an
  infinity, one of at most \<open>2^-1075\<close> rounds to zero.
\<close>

definition double_range :: "real \<Rightarrow> num" where
  "double_range r =
     (if 2 ^ 1024 - 2 ^ 970 \<le> \<bar>r\<bar> then (if 0 < r then PInf else NInf)
      else if \<bar>r\<bar> * 2 ^ 1075 \<le> 1 then Fin 0
      else Fin r)"

definition pow10 :: "int \<Rightarrow> real" where
  "pow10 e = (if 0 \<le> e then 10 ^ nat e else 1 / 10 ^ nat (- e))"

text \<open>The exponent part \<^verbatim>\<open>e[+-]digits\<close>, which counts only when a digit follows.\<close>

definition exponent_part :: "string \<Rightarrow> int" where
  "exponent_part s =
     (case s of
        [] \<Rightarrow> 0
      | c # r \<Rightarrow>
          if c = CHR ''e'' \<or> c = CHR ''E'' then
            (let (neg, r') =
                   (case r of
                      [] \<Rightarrow> (False, r)
                    | d # r'' \<Rightarrow>
                        if d = CHR ''-'' then (True, r'')
                        else if d = CHR ''+'' then (False, r'')
                        else (False, r));
                 ds = takeWhile is_digit r'
             in if ds = [] then 0
                else if neg then - int (digits_val ds) else int (digits_val ds))
          else 0)"

text \<open>
  \<^verbatim>\<open>parseFloat(s)\<close> on a string: leading white space is skipped, then the longest
  prefix that is a decimal literal (or a signed \<^verbatim>\<open>Infinity\<close>) is read; NaN when
  there is none.
\<close>

definition parseFloat_str :: "string \<Rightarrow> num" where
  "parseFloat_str s =
     (let s1 = dropWhile is_ws s;
          (neg, s2) =
            (case s1 of
               [] \<Rightarrow> (False, s1)
             | c # r \<Rightarrow>
                 if c = CHR ''-'' then (True, r)
                 else if c = CHR ''+'' then (False, r)
                 else (False, s1))
      in if take 8 s2 = ''Infinity'' then (if neg then NInf else PInf)
         else
           (let ip = takeWhile is_digit s2;
                r1 = dropWhile is_digit s2;
                (fp, r2) =
                  (case r1 of
                     [] \<Rightarrow> ([], r1)
                   | c # r \<Rightarrow>
                       if c = CHR ''.'' then (takeWhile is_digit r, dropWhile is_digit r)
                       else ([], r1))
            in if ip = [] \<and> fp = [] then NaN
               else
                 (let mant = real (digits_val (ip @ fp)) / 10 ^ length fp;
                      v = mant * pow10 (exponent_part r2)
                  in double_range (if neg then - v else v))))"

text \<open>
  \<^verbatim>\<open>parseFloat(v)\<close> on a value: the value is converted to a string first. A number
  prints and parses back to itself; \<^verbatim>\<open>null\<close>, \<^verbatim>\<open>undefined\<close>, booleans and
  objects print as text that is no number; an array prints as its elements joined by
  commas, so that its first element decides.
\<close>

fun parseFloat_json :: "json \<Rightarrow> num" where
  "parseFloat_json JNull = NaN"
| "parseFloat_json (JBool b) = NaN"
| "parseFloat_json (JNum n) = n"
| "parseFloat_json (JStr s) = parseFloat_str s"
| "parseFloat_json (JArr []) = NaN"
| "parseFloat_json (JArr (x # xs)) = parseFloat_json x"
| "parseFloat_json (JObj kvs) = NaN"

fun parseFloat :: "json option \<Rightarrow> num" where
  "parseFloat None = NaN"
| "parseFloat (Some v) = parseFloat_json v"

section \<open>Telemetry Normalizer: parseNOAAData\<close>

text \<open>
  An exception is a value: the message of the Error object thrown. The only operation of
  the normalizer that can throw is \<^verbatim>\<open>.substring\<close> on a time tag that is truthy but
  no string, a TypeError whose message the engine words.
\<close>

datatype js_error = JsError string


record TelemetryPoint =
  time :: string
  speed :: num
  density :: num
  temp :: num
  bt :: num
  bz :: num
  bx :: num
  by_gsm :: num
  kp :: num
  xray :: num

text \<open>The value stored in magMap: \<^verbatim>\<open>{bx, by, bz, bt}\<close>.\<close>

record MagReading =
  m_bx :: num
  m_by :: num
  m_bz :: num
  m_bt :: num

text \<open>
  The time tag \<open>t\<close> of a row, once known to be truthy: \<^verbatim>\<open>t.substring(0, 16)\<close>
  throws unless \<open>t\<close> is a string, with a message that names the expression it was
  called on (\<open>what\<close>). The result is the whole string; the key is its first 16
  characters.
\<close>

fun time_tag :: "string \<Rightarrow> json option \<Rightarrow> js_error + string" where
  "time_tag what (Some (JStr s)) = Inr s"
| "time_tag what v = Inl (JsError (what @ ''.substring is not a function''))"

definition substring16 :: "string \<Rightarrow> string" where
  "substring16 s = take 16 s"

text \<open>Lines 34-39: the reading stored for a row of the magnetic-field payload.\<close>

definition mag_of_row :: "json \<Rightarrow> MagReading" where
  "mag_of_row r =
     \<lparr>m_bx = num_or (parseFloat (js_index r 1)) (Fin 0),
      m_by = num_or (parseFloat (js_index r 2)) (Fin 0),
      m_bz = num_or (parseFloat (js_index r 3)) (Fin 0),
      m_bt = num_or (parseFloat (js_index r 4)) (Fin 0)\<rparr>"

text \<open>Lines 29-40: the loop over \<^verbatim>\<open>mag[1..]\<close> that fills magMap.\<close>

fun magLoop :: "json list \<Rightarrow> (string \<rightharpoonup> MagReading) \<Rightarrow> js_error + (string \<rightharpoonup> MagReading)" where
  "magLoop [] m = Inr m"
| "magLoop (r # rs) m =
     (if \<not> truthy (Some r) \<or> \<not> truthy (js_index r 0) then magLoop rs m
      else
        (case time_tag ''r[0]'' (js_index r 0) of
           Inl e \<Rightarrow> Inl e
         | Inr t \<Rightarrow> magLoop rs (m(substring16 t \<mapsto> mag_of_row r))))"

text \<open>Lines 42-48: the loop over \<^verbatim>\<open>kp[1..]\<close> that fills kpMap.\<close>

fun kpLoop :: "json list \<Rightarrow> (string \<rightharpoonup> num) \<Rightarrow> js_error + (string \<rightharpoonup> num)" where
  "kpLoop [] m = Inr m"
| "kpLoop (r # rs) m =
     (if \<not> truthy (Some r) \<or> \<not> truthy (js_index r 0) then kpLoop rs m
      else
        (case time_tag ''r[0]'' (js_index r 0) of
           Inl e \<Rightarrow> Inl e
         | Inr t \<Rightarrow>
             kpLoop rs (m(substring16 t \<mapsto> num_or (parseFloat (js_index r 1)) (Fin 0)))))"

text \<open>Lines 51-58: the loop over the flux objects, run only when xray is an array.\<close>

fun xrayLoop :: "json list \<Rightarrow> (string \<rightharpoonup> num) \<Rightarrow> js_error + (string \<rightharpoonup> num)" where
  "xrayLoop [] m = Inr m"
| "xrayLoop (r # rs) m =
     (if \<not> truthy (Some r) \<or> \<not> truthy (js_member r ''time_tag'') then xrayLoop rs m
      else
        (case time_tag ''r.time_tag'' (js_member r ''time_tag'') of
           Inl e \<Rightarrow> Inl e
         | Inr t \<Rightarrow>
             xrayLoop rs
               (m(substring16 t \<mapsto> num_or (parseFloat (js_member r ''flux'')) (Fin 0)))))"

fun array_elements :: "json \<Rightarrow> json list" where
  "array_elements (JArr xs) = xs"
| "array_elements v = []"

text \<open>Line 76: \<^verbatim>\<open>magMap.get(key) || { bx: 0, by: 0, bz: 0, bt: 5 }\<close>.\<close>

definition mag_at :: "(string \<rightharpoonup> MagReading) \<Rightarrow> string \<Rightarrow> MagReading" where
  "mag_at magMap key =
     (case magMap key of
        Some m \<Rightarrow> m
      | None \<Rightarrow> \<lparr>m_bx = Fin 0, m_by = Fin 0, m_bz = Fin 0, m_bt = Fin 5\<rparr>)"

text \<open>Lines 79 and 81: \<^verbatim>\<open>if (map.has(key)) last = map.get(key)\<close>.\<close>

definition carry :: "(string \<rightharpoonup> num) \<Rightarrow> string \<Rightarrow> num \<Rightarrow> num" where
  "carry m key lastv = (case m key of Some v \<Rightarrow> v | None \<Rightarrow> lastv)"

text \<open>Lines 71-73 and 83-89: the point pushed for a row of the plasma payload.\<close>

definition point_of :: "json \<Rightarrow> string \<Rightarrow> MagReading \<Rightarrow> num \<Rightarrow> num \<Rightarrow> TelemetryPoint" where
  "point_of r timeStr m lastKp lastXray =
     \<lparr>time = timeStr,
      speed = num_or (parseFloat (js_index r 2)) (Fin 400),
      density = num_or (parseFloat (js_index r 1)) (Fin 5),
      temp = num_or (parseFloat (js_index r 3)) (Fin 100000),
      bt = m_bt m, bz = m_bz m, bx = m_bx m, by_gsm = m_by m,
      kp = lastKp, xray = lastXray\<rparr>"

text \<open>
  Lines 61-90: the loop over \<^verbatim>\<open>plasma[1..]\<close>. \<open>lastKp\<close> and \<open>lastXray\<close> are the
  two variables the loop carries; the points pushed are returned in order.
\<close>

fun plasmaLoop ::
  "json list \<Rightarrow> (string \<rightharpoonup> MagReading) \<Rightarrow> (string \<rightharpoonup> num) \<Rightarrow> (string \<rightharpoonup> num) \<Rightarrow>
   num \<Rightarrow> num \<Rightarrow> js_error + TelemetryPoint list" where
  "plasmaLoop [] magMap kpMap xrayMap lastKp lastXray = Inr []"
| "plasmaLoop (r # rs) magMap kpMap xrayMap lastKp lastXray =
     (if \<not> truthy (Some r) \<or> \<not> truthy (js_index r 0)
      then plasmaLoop rs magMap kpMap xrayMap lastKp lastXray
      else
        (case time_tag ''timeStr'' (js_index r 0) of
           Inl e \<Rightarrow> Inl e
         | Inr timeStr \<Rightarrow>
             (let key = substring16 timeStr;
                  lastKp' = carry kpMap key lastKp;
                  lastXray' = carry xrayMap key lastXray
              in (case plasmaLoop rs magMap kpMap xrayMap lastKp' lastXray' of
                    Inl e \<Rightarrow> Inl e
                  | Inr timeline \<Rightarrow>
                      Inr (point_of r timeStr (mag_at magMap key) lastKp' lastXray'
                           # timeline)))))"

text \<open>
  The three maps, as parseNOAAData builds them. The tabular payloads are JSON arrays, a
  header row and then the rows (lines 23-25); rows and cells are arbitrary JSON values.
\<close>

definition magMap_of :: "json list \<Rightarrow> js_error + (string \<rightharpoonup> MagReading)" where
  "magMap_of mag = magLoop (drop 1 mag) Map.empty"

definition kpMap_of :: "json list \<Rightarrow> js_error + (string \<rightharpoonup> num)" where
  "kpMap_of kpp = kpLoop (drop 1 kpp) Map.empty"

definition xrayMap_of :: "json \<Rightarrow> js_error + (string \<rightharpoonup> num)" where
  "xrayMap_of xrayp = xrayLoop (array_elements xrayp) Map.empty"

definition parseNOAAData ::
  "json list \<Rightarrow> json list \<Rightarrow> json list \<Rightarrow> json \<Rightarrow> js_error + TelemetryPoint list" where
  "parseNOAAData plasma mag kpp xrayp =
     (case magMap_of mag of
        Inl e \<Rightarrow> Inl e
      | Inr magMap \<Rightarrow>
          (case kpMap_of kpp of
             Inl e \<Rightarrow> Inl e
           | Inr kpMap \<Rightarrow>
               (case xrayMap_of xrayp of
                  Inl e \<Rightarrow> Inl e
                | Inr xrayMap \<Rightarrow>
                    plasmaLoop (drop 1 plasma) magMap kpMap xrayMap (Fin 2) (Fin 0.0000001))))"

section \<open>Properties of the Normalizer\<close>

text \<open>A row of the plasma payload that passes the guard of line 67 and yields a point.\<close>

definition emitted :: "json \<Rightarrow> bool" where
  "emitted r = (truthy (Some r) \<and> truthy (js_index r 0))"

text \<open>The minute key of a point: the first 16 characters of its time string.\<close>

definition key_of :: "TelemetryPoint \<Rightarrow> string" where
  "key_of p = substring16 (time p)"

lemma time_tag_Inr: "time_tag what v = Inr t \<longleftrightarrow> v = Some (JStr t)"
  by (cases "(what, v)" rule: time_tag.cases) auto

lemma plasmaLoop_skip:
  "\<not> emitted r \<Longrightarrow>
   plasmaLoop (r # rs) magMap kpMap xrayMap lastKp lastXray =
   plasmaLoop rs magMap kpMap xrayMap lastKp lastXray"
  by (simp add: emitted_def)

lemma plasmaLoop_emit:
  assumes "emitted r"
    and "plasmaLoop (r # rs) magMap kpMap xrayMap lastKp lastXray = Inr timeline"
  obtains timeStr tl' where
    "js_index r 0 = Some (JStr timeStr)"
    "plasmaLoop rs magMap kpMap xrayMap
       (carry kpMap (substring16 timeStr) lastKp)
       (carry xrayMap (substring16 timeStr) lastXray) = Inr tl'"
    "timeline =
       point_of r timeStr (mag_at magMap (substring16 timeStr))
         (carry kpMap (substring16 timeStr) lastKp)
         (carry xrayMap (substring16 timeStr) lastXray) # tl'"
  using assms by (auto simp: emitted_def Let_def time_tag_Inr split: sum.splits)

declare plasmaLoop.simps(2) [simp del]

lemma point_of_sel [simp]:
  "time (point_of r t m k x) = t"
  "speed (point_of r t m k x) = num_or (parseFloat (js_index r 2)) (Fin 400)"
  "density (point_of r t m k x) = num_or (parseFloat (js_index r 1)) (Fin 5)"
  "temp (point_of r t m k x) = num_or (parseFloat (js_index r 3)) (Fin 100000)"
  "bt (point_of r t m k x) = m_bt m"
  "bz (point_of r t m k x) = m_bz m"
  "bx (point_of r t m k x) = m_bx m"
  "by_gsm (point_of r t m k x) = m_by m"
  "kp (point_of r t m k x) = k"
  "xray (point_of r t m k x) = x"
  by (simp_all add: point_of_def)

lemma plasmaLoop_length:
  "plasmaLoop rows magMap kpMap xrayMap lastKp lastXray = Inr timeline \<Longrightarrow>
   length timeline = length (filter emitted rows)"
proof (induction rows arbitrary: lastKp lastXray timeline)
  case Nil
  then show ?case by simp
next
  case (Cons r rs)
  show ?case
  proof (cases "emitted r")
    case False
    with Cons show ?thesis by (simp add: plasmaLoop_skip)
  next
    case True
    from True Cons.prems(1) obtain timeStr tl' where
      rest: "plasmaLoop rs magMap kpMap xrayMap
          (carry kpMap (substring16 timeStr) lastKp)
          (carry xrayMap (substring16 timeStr) lastXray) = Inr tl'"
      and tl: "timeline = point_of r timeStr (mag_at magMap (substring16 timeStr))
         (carry kpMap (substring16 timeStr) lastKp)
         (carry xrayMap (substring16 timeStr) lastXray) # tl'"
      by (rule plasmaLoop_emit)
    from Cons.IH [OF rest] True tl show ?thesis by simp
  qed
qed

text \<open>The point at position j, in terms of the row it comes from and of the point before.\<close>

lemma plasmaLoop_nth:
  "plasmaLoop rows magMap kpMap xrayMap lastKp lastXray = Inr timeline \<Longrightarrow> j < length timeline \<Longrightarrow>
   timeline ! j =
     point_of (filter emitted rows ! j) (time (timeline ! j))
       (mag_at magMap (key_of (timeline ! j)))
       (carry kpMap (key_of (timeline ! j)) (if j = 0 then lastKp else kp (timeline ! (j - 1))))
       (carry xrayMap (key_of (timeline ! j)) (if j = 0 then lastXray else xray (timeline ! (j - 1))))"
proof (induction rows arbitrary: lastKp lastXray timeline j)
  case Nil
  then show ?case by simp
next
  case (Cons r rs)
  show ?case
  proof (cases "emitted r")
    case False
    with Cons show ?thesis by (simp add: plasmaLoop_skip)
  next
    case True
    from True Cons.prems(1) obtain timeStr tl' where
      rest: "plasmaLoop rs magMap kpMap xrayMap
          (carry kpMap (substring16 timeStr) lastKp)
          (carry xrayMap (substring16 timeStr) lastXray) = Inr tl'"
      and tl: "timeline = point_of r timeStr (mag_at magMap (substring16 timeStr))
         (carry kpMap (substring16 timeStr) lastKp)
         (carry xrayMap (substring16 timeStr) lastXray) # tl'"
      by (rule plasmaLoop_emit)
    show ?thesis
    proof (cases j)
      case 0
      then show ?thesis using True by (simp add: tl key_of_def)
    next
      case (Suc j')
      with Cons.prems(2) tl have "j' < length tl'" by simp
      from Cons.IH [OF rest this] show ?thesis
        unfolding tl Suc using True by (cases j') simp_all
    qed
  qed
qed

lemma kp_nth:
  assumes "plasmaLoop rows magMap kpMap xrayMap lastKp lastXray = Inr timeline" "j < length timeline"
  shows "kp (timeline ! j) =
     carry kpMap (key_of (timeline ! j)) (if j = 0 then lastKp else kp (timeline ! (j - 1)))"
  by (subst plasmaLoop_nth [OF assms]) simp

lemma xray_nth:
  assumes "plasmaLoop rows magMap kpMap xrayMap lastKp lastXray = Inr timeline" "j < length timeline"
  shows "xray (timeline ! j) =
     carry xrayMap (key_of (timeline ! j)) (if j = 0 then lastXray else xray (timeline ! (j - 1)))"
  by (subst plasmaLoop_nth [OF assms]) simp

lemma carried_over_gap:
  fixes f :: "nat \<Rightarrow> num"
  assumes step: "\<And>i. i \<le> k \<Longrightarrow> f i = carry m (key i) (if i = 0 then d else f (i - 1))"
    and gap: "\<forall>i. j < i \<and> i \<le> k \<longrightarrow> m (key i) = None"
    and "j \<le> k"
  shows "f k = f j"
  using assms(3) gap step
proof (induction k)
  case 0
  then show ?case by simp
next
  case (Suc k)
  show ?case
  proof (cases "j = Suc k")
    case True
    then show ?thesis by simp
  next
    case False
    with Suc.prems have jk: "j \<le> k" by simp
    have "f (Suc k) = f k" using Suc.prems(2) Suc.prems(3) [of "Suc k"] jk
      by (simp add: carry_def)
    moreover have "f k = f j" using jk Suc.prems by (intro Suc.IH) auto
    ultimately show ?thesis by simp
  qed
qed

lemma never_seen:
  fixes f :: "nat \<Rightarrow> num"
  assumes step: "\<And>i. i \<le> k \<Longrightarrow> f i = carry m (key i) (if i = 0 then d else f (i - 1))"
    and gap: "\<forall>i. i \<le> k \<longrightarrow> m (key i) = None"
  shows "f k = d"
proof -
  have "f 0 = d" using step [of 0] gap by (simp add: carry_def)
  moreover have "f k = f 0" using step gap by (intro carried_over_gap [where m = m and key = key and d = d]) auto
  ultimately show ?thesis by simp
qed

lemma kp_part:
  assumes loop: "plasmaLoop rows magMap kpMap xrayMap d dx = Inr timeline"
    and "j \<le> k" and "k < length timeline"
  shows
    "(\<forall>v. kpMap (key_of (timeline ! k)) = Some v \<longrightarrow> kp (timeline ! k) = v) \<and>
     ((\<forall>i. j < i \<and> i \<le> k \<longrightarrow> kpMap (key_of (timeline ! i)) = None) \<longrightarrow>
        kp (timeline ! k) = kp (timeline ! j)) \<and>
     ((\<forall>i. i \<le> k \<longrightarrow> kpMap (key_of (timeline ! i)) = None) \<longrightarrow> kp (timeline ! k) = d)"
proof (intro conjI allI impI)
  have kstep: "kp (timeline ! i) =
      carry kpMap (key_of (timeline ! i)) (if i = 0 then d else kp (timeline ! (i - 1)))"
    if "i \<le> k" for i
    using that assms(3) by (intro kp_nth [OF loop]) simp
  show "kp (timeline ! k) = v" if "kpMap (key_of (timeline ! k)) = Some v" for v
    using kstep [of k] that by (simp add: carry_def)
  show "kp (timeline ! k) = kp (timeline ! j)"
    if "\<forall>i. j < i \<and> i \<le> k \<longrightarrow> kpMap (key_of (timeline ! i)) = None"
    by (rule carried_over_gap [where f = "\<lambda>i. kp (timeline ! i)" and m = kpMap
        and key = "\<lambda>i. key_of (timeline ! i)" and d = d, OF kstep that assms(2)])
  show "kp (timeline ! k) = d"
    if "\<forall>i. i \<le> k \<longrightarrow> kpMap (key_of (timeline ! i)) = None"
    by (rule never_seen [where f = "\<lambda>i. kp (timeline ! i)" and m = kpMap
        and key = "\<lambda>i. key_of (timeline ! i)" and d = d, OF kstep that])
qed


lemma xray_part:
  assumes loop: "plasmaLoop rows magMap kpMap xrayMap d dx = Inr timeline"
    and "j \<le> k" and "k < length timeline"
  shows
    "(\<forall>v. xrayMap (key_of (timeline ! k)) = Some v \<longrightarrow> xray (timeline ! k) = v) \<and>
     ((\<forall>i. j < i \<and> i \<le> k \<longrightarrow> xrayMap (key_of (timeline ! i)) = None) \<longrightarrow>
        xray (timeline ! k) = xray (timeline ! j)) \<and>
     ((\<forall>i. i \<le> k \<longrightarrow> xrayMap (key_of (timeline ! i)) = None) \<longrightarrow> xray (timeline ! k) = dx)"
proof (intro conjI allI impI)
  have xstep: "xray (timeline ! i) =
      carry xrayMap (key_of (timeline ! i)) (if i = 0 then dx else xray (timeline ! (i - 1)))"
    if "i \<le> k" for i
    using that assms(3) by (intro xray_nth [OF loop]) simp
  show "xray (timeline ! k) = v" if "xrayMap (key_of (timeline ! k)) = Some v" for v
    using xstep [of k] that by (simp add: carry_def)
  show "xray (timeline ! k) = xray (timeline ! j)"
    if "\<forall>i. j < i \<and> i \<le> k \<longrightarrow> xrayMap (key_of (timeline ! i)) = None"
    by (rule carried_over_gap [where f = "\<lambda>i. xray (timeline ! i)" and m = xrayMap
        and key = "\<lambda>i. key_of (timeline ! i)" and d = dx, OF xstep that assms(2)])
  show "xray (timeline ! k) = dx"
    if "\<forall>i. i \<le> k \<longrightarrow> xrayMap (key_of (timeline ! i)) = None"
    by (rule never_seen [where f = "\<lambda>i. xray (timeline ! i)" and m = xrayMap
        and key = "\<lambda>i. key_of (timeline ! i)" and d = dx, OF xstep that])
qed

lemma mag_nth:
  assumes "plasmaLoop rows magMap kpMap xrayMap d dx = Inr timeline" "k < length timeline"
  shows "bx (timeline ! k) = m_bx (mag_at magMap (key_of (timeline ! k)))"
    and "by_gsm (timeline ! k) = m_by (mag_at magMap (key_of (timeline ! k)))"
    and "bz (timeline ! k) = m_bz (mag_at magMap (key_of (timeline ! k)))"
    and "bt (timeline ! k) = m_bt (mag_at magMap (key_of (timeline ! k)))"
  by (subst plasmaLoop_nth [OF assms], simp)+

lemma mag_part:
  assumes "plasmaLoop rows magMap kpMap xrayMap d dx = Inr timeline" "k < length timeline"
  shows
    "(\<forall>m. magMap (key_of (timeline ! k)) = Some m \<longrightarrow>
        bx (timeline ! k) = m_bx m \<and> by_gsm (timeline ! k) = m_by m \<and>
        bz (timeline ! k) = m_bz m \<and> bt (timeline ! k) = m_bt m) \<and>
     (magMap (key_of (timeline ! k)) = None \<longrightarrow>
        bx (timeline ! k) = Fin 0 \<and> by_gsm (timeline ! k) = Fin 0 \<and>
        bz (timeline ! k) = Fin 0 \<and> bt (timeline ! k) = Fin 5)"
  by (simp add: mag_nth [OF assms] mag_at_def)

lemma parse_loop:
  assumes "parseNOAAData plasma mag kpp xrayp = Inr timeline"
    and "magMap_of mag = Inr magMap"
    and "kpMap_of kpp = Inr kpMap"
    and "xrayMap_of xrayp = Inr xrayMap"
  shows "plasmaLoop (drop 1 plasma) magMap kpMap xrayMap (Fin 2) (Fin 0.0000001) = Inr timeline"
  using assms by (simp add: parseNOAAData_def)

subsection \<open>Evaluating parseFloat on concrete strings\<close>

lemma pow_bound_hi: "(2::real) ^ 100 < 2 ^ 1024 - 2 ^ 970"
proof -
  have "(2::real) ^ 100 < 2 ^ 970" by (rule power_strict_increasing) simp_all
  moreover have "(2::real) * 2 ^ 970 \<le> 2 ^ 1024"
  proof -
    have "(2::real) ^ 971 \<le> 2 ^ 1024" by (rule power_increasing) simp_all
    moreover have "(2::real) ^ 971 = 2 * 2 ^ 970" by (simp only: power_Suc [symmetric]) simp
    ultimately show ?thesis by simp
  qed
  ultimately show ?thesis by linarith
qed

lemma pow_bound_lo: "(2::real) ^ 100 < 2 ^ 1075"
  by (rule power_strict_increasing) simp_all

lemma double_range_Fin:
  assumes "1 / 2 ^ 100 \<le> \<bar>r\<bar>" "\<bar>r\<bar> \<le> 2 ^ 100"
  shows "double_range r = Fin r"
proof -
  have a: "\<bar>r\<bar> < 2 ^ 1024 - 2 ^ 970" using assms(2) pow_bound_hi by linarith
  have "1 < (1 / 2 ^ 100) * (2::real) ^ 1075"
    using pow_bound_lo by (simp add: field_simps del: power_strict_increasing_iff)
  also have "\<dots> \<le> \<bar>r\<bar> * 2 ^ 1075" using assms(1) by (intro mult_right_mono) auto
  finally have b: "1 < \<bar>r\<bar> * 2 ^ 1075" .
  show ?thesis unfolding double_range_def using a b by simp
qed

lemmas parse_eval = parseFloat_str_def is_ws_def is_digit_def digits_val_def pow10_def
  exponent_part_def double_range_Fin

subsection \<open>A sample payload\<close>

text \<open>
  Three plasma rows one minute apart; the magnetic-field, index and flux payloads each
  have a reading for the first minute only.
\<close>

definition ex_plasma :: "json list" where
  "ex_plasma =
     [JArr [JStr ''time_tag'', JStr ''density'', JStr ''speed'', JStr ''temperature''],
      JArr [JStr ''2025-02-01 00:00:00.000'', JStr ''5.2'', JStr ''420.1'', JStr ''98000''],
      JArr [JStr ''2025-02-01 00:01:00.000'', JStr ''5.3'', JStr ''421.0'', JStr ''98100''],
      JArr [JStr ''2025-02-01 00:02:00.000'', JStr ''5.4'', JStr ''422.5'', JStr ''98200'']]"

definition ex_mag :: "json list" where
  "ex_mag =
     [JArr [JStr ''time_tag'', JStr ''bx_gsm'', JStr ''by_gsm'', JStr ''bz_gsm'', JStr ''bt''],
      JArr [JStr ''2025-02-01 00:00:00.000'', JStr ''1.2'', JStr ''-3.4'', JStr ''2.1'', JStr ''4.5'']]"

definition ex_kp :: "json list" where
  "ex_kp =
     [JArr [JStr ''time_tag'', JStr ''kp_index''],
      JArr [JStr ''2025-02-01 00:00:00.000'', JStr ''3.00'']]"

definition ex_xray :: json where
  "ex_xray =
     JArr [JObj [(''time_tag'', JStr ''2025-02-01 00:00:00.000''), (''flux'', JNum (Fin 0.0000005))]]"

definition ex_timeline :: "TelemetryPoint list" where
  "ex_timeline =
     [\<lparr>time = ''2025-02-01 00:00:00.000'', speed = Fin 420.1, density = Fin 5.2, temp = Fin 98000,
       bt = Fin 4.5, bz = Fin 2.1, bx = Fin 1.2, by_gsm = Fin (- 3.4), kp = Fin 3, xray = Fin 0.0000005\<rparr>,
      \<lparr>time = ''2025-02-01 00:01:00.000'', speed = Fin 421, density = Fin 5.3, temp = Fin 98100,
       bt = Fin 5, bz = Fin 0, bx = Fin 0, by_gsm = Fin 0, kp = Fin 3, xray = Fin 0.0000005\<rparr>,
      \<lparr>time = ''2025-02-01 00:02:00.000'', speed = Fin 422.5, density = Fin 5.4, temp = Fin 98200,
       bt = Fin 5, bz = Fin 0, bx = Fin 0, by_gsm = Fin 0, kp = Fin 3, xray = Fin 0.0000005\<rparr>]"

lemma ex_magMap: "magMap_of ex_mag = Inr [''2025-02-01 00:00'' \<mapsto> \<lparr>m_bx = Fin 1.2, m_by = Fin (- 3.4), m_bz = Fin 2.1, m_bt = Fin 4.5\<rparr>]"
  by (simp add: magMap_of_def ex_mag_def substring16_def mag_of_row_def num_or_def parse_eval)

lemma ex_kpMap: "kpMap_of ex_kp = Inr [''2025-02-01 00:00'' \<mapsto> Fin 3]"
  by (simp add: kpMap_of_def ex_kp_def substring16_def num_or_def parse_eval)

lemma ex_xrayMap: "xrayMap_of ex_xray = Inr [''2025-02-01 00:00'' \<mapsto> Fin 0.0000005]"
  by (simp add: xrayMap_of_def ex_xray_def substring16_def num_or_def)

lemma ex_parse: "parseNOAAData ex_plasma ex_mag ex_kp ex_xray = Inr ex_timeline"
  unfolding parseNOAAData_def ex_magMap ex_kpMap ex_xrayMap
  by (simp add: ex_plasma_def ex_timeline_def plasmaLoop.simps substring16_def point_of_def
      mag_at_def carry_def num_or_def Let_def parse_eval)

subsection \<open>Carry-forward of the auxiliary series\<close>

text \<open>
  Claim C2, as the code has it. Let \<open>timeline\<close> be the result of parseNOAAData and
  \<open>magMap\<close>, \<open>kpMap\<close>, \<open>xrayMap\<close> the maps it builds. For the index (kp) and the flux
  (xray): a point whose minute key is in the map takes the value of the map; over any run
  of points \<open>j < i \<le> k\<close> whose keys are all absent from the map, the value of point
  \<open>j\<close> is carried forward unchanged to point \<open>k\<close>, whatever the length of the run;
  and the defaults 2 and 1e-7 appear only while no key has been seen yet. For the magnetic
  field there is no carry-forward: a point whose key is in magMap takes the reading of the
  map, and a point whose key is absent takes the fixed default bx = by = bz = 0, bt = 5.
\<close>

theorem carry_forward:
  assumes "parseNOAAData plasma mag kpp xrayp = Inr timeline"
    and "magMap_of mag = Inr magMap"
    and "kpMap_of kpp = Inr kpMap"
    and "xrayMap_of xrayp = Inr xrayMap"
    and "j \<le> k" and "k < length timeline"
  shows
    "((\<forall>v. kpMap (key_of (timeline ! k)) = Some v \<longrightarrow> kp (timeline ! k) = v) \<and>
      ((\<forall>i. j < i \<and> i \<le> k \<longrightarrow> kpMap (key_of (timeline ! i)) = None) \<longrightarrow>
         kp (timeline ! k) = kp (timeline ! j)) \<and>
      ((\<forall>i. i \<le> k \<longrightarrow> kpMap (key_of (timeline ! i)) = None) \<longrightarrow>
         kp (timeline ! k) = Fin 2)) \<and>
     ((\<forall>v. xrayMap (key_of (timeline ! k)) = Some v \<longrightarrow> xray (timeline ! k) = v) \<and>
      ((\<forall>i. j < i \<and> i \<le> k \<longrightarrow> xrayMap (key_of (timeline ! i)) = None) \<longrightarrow>
         xray (timeline ! k) = xray (timeline ! j)) \<and>
      ((\<forall>i. i \<le> k \<longrightarrow> xrayMap (key_of (timeline ! i)) = None) \<longrightarrow>
         xray (timeline ! k) = Fin 0.0000001)) \<and>
     ((\<forall>m. magMap (key_of (timeline ! k)) = Some m \<longrightarrow>
         bx (timeline ! k) = m_bx m \<and> by_gsm (timeline ! k) = m_by m \<and>
         bz (timeline ! k) = m_bz m \<and> bt (timeline ! k) = m_bt m) \<and>
      (magMap (key_of (timeline ! k)) = None \<longrightarrow>
         bx (timeline ! k) = Fin 0 \<and> by_gsm (timeline ! k) = Fin 0 \<and>
         bz (timeline ! k) = Fin 0 \<and> bt (timeline ! k) = Fin 5))"
proof -
  note loop = parse_loop [OF assms(1-4)]
  show ?thesis
    by (intro conjI [OF kp_part [OF loop assms(5,6)]
          conjI [OF xray_part [OF loop assms(5,6)] mag_part [OF loop assms(6)]]])
qed

text \<open>
  The claim as stated, for the magnetic-field series, fails on the sample payload: the second
  point has no magnetic-field reading for its minute, and its bt is the default 5, not the
  4.5 last seen.
\<close>

theorem carry_forward_mag_counterexample:
  "parseNOAAData ex_plasma ex_mag ex_kp ex_xray = Inr ex_timeline \<and>
   magMap_of ex_mag =
     Inr [''2025-02-01 00:00'' \<mapsto>
          \<lparr>m_bx = Fin 1.2, m_by = Fin (- 3.4), m_bz = Fin 2.1, m_bt = Fin 4.5\<rparr>] \<and>
   key_of (ex_timeline ! 0) = ''2025-02-01 00:00'' \<and>
   key_of (ex_timeline ! 1) = ''2025-02-01 00:01'' \<and>
   bt (ex_timeline ! 0) = Fin 4.5 \<and>
   bt (ex_timeline ! 1) = Fin 5 \<and>
   bt (ex_timeline ! 1) \<noteq> bt (ex_timeline ! 0)"
  using ex_parse ex_magMap by (simp add: ex_timeline_def key_of_def substring16_def)

theorem carry_forward_witness:
  "parseNOAAData ex_plasma ex_mag ex_kp ex_xray = Inr ex_timeline \<and>
   kp (ex_timeline ! 2) = kp (ex_timeline ! 0) \<and>
   xray (ex_timeline ! 2) = xray (ex_timeline ! 0) \<and>
   bx (ex_timeline ! 2) = Fin 0 \<and> by_gsm (ex_timeline ! 2) = Fin 0 \<and>
   bz (ex_timeline ! 2) = Fin 0 \<and> bt (ex_timeline ! 2) = Fin 5"
proof -
  have len: "2 < length ex_timeline" by (simp add: ex_timeline_def)
  have keys: "key_of (ex_timeline ! i) \<noteq> ''2025-02-01 00:00''" if "0 < i" "i \<le> 2" for i
  proof -
    from that have "i = 1 \<or> i = 2" by auto
    then show ?thesis by (auto simp: ex_timeline_def key_of_def substring16_def)
  qed
  have gap_kp: "\<forall>i. 0 < i \<and> i \<le> 2 \<longrightarrow>
      [''2025-02-01 00:00'' \<mapsto> Fin 3] (key_of (ex_timeline ! i)) = None"
    using keys by simp
  have gap_xray: "\<forall>i. 0 < i \<and> i \<le> 2 \<longrightarrow>
      [''2025-02-01 00:00'' \<mapsto> Fin 0.0000005] (key_of (ex_timeline ! i)) = None"
    using keys by simp
  have no_mag: "[''2025-02-01 00:00'' \<mapsto>
      \<lparr>m_bx = Fin 1.2, m_by = Fin (- 3.4), m_bz = Fin 2.1, m_bt = Fin 4.5\<rparr>]
      (key_of (ex_timeline ! 2)) = None"
    using keys [of 2] by simp
  from carry_forward [OF ex_parse ex_magMap ex_kpMap ex_xrayMap _ len, of 0]
    gap_kp gap_xray no_mag ex_parse
  show ?thesis by blast
qed

subsection \<open>Defaults, NaN and finiteness\<close>

text \<open>A predicate on numbers, asked of the nine numeric fields of a point.\<close>

definition point_all :: "(num \<Rightarrow> bool) \<Rightarrow> TelemetryPoint \<Rightarrow> bool" where
  "point_all P p =
     (P (speed p) \<and> P (density p) \<and> P (temp p) \<and> P (bt p) \<and> P (bz p) \<and> P (bx p) \<and>
      P (by_gsm p) \<and> P (kp p) \<and> P (xray p))"

definition mag_all :: "(num \<Rightarrow> bool) \<Rightarrow> MagReading \<Rightarrow> bool" where
  "mag_all P m = (P (m_bx m) \<and> P (m_by m) \<and> P (m_bz m) \<and> P (m_bt m))"

definition not_nan :: "num \<Rightarrow> bool" where
  "not_nan n = (n \<noteq> NaN)"

text \<open>A cell that parseFloat does not read as an infinity.\<close>

definition cell_ok :: "json option \<Rightarrow> bool" where
  "cell_ok c = (parseFloat c \<noteq> PInf \<and> parseFloat c \<noteq> NInf)"

text \<open>No numeric cell that parseNOAAData reads parses to an infinity.\<close>

definition finite_cells :: "json list \<Rightarrow> json list \<Rightarrow> json list \<Rightarrow> json \<Rightarrow> bool" where
  "finite_cells plasma mag kpp xrayp =
     (list_all (\<lambda>r. cell_ok (js_index r 1) \<and> cell_ok (js_index r 2) \<and> cell_ok (js_index r 3))
        (drop 1 plasma) \<and>
      list_all (\<lambda>r. cell_ok (js_index r 1) \<and> cell_ok (js_index r 2) \<and> cell_ok (js_index r 3) \<and>
                    cell_ok (js_index r 4)) (drop 1 mag) \<and>
      list_all (\<lambda>r. cell_ok (js_index r 1)) (drop 1 kpp) \<and>
      list_all (\<lambda>r. cell_ok (js_member r ''flux'')) (array_elements xrayp))"

lemma num_or_not_nan: "not_nan d \<Longrightarrow> not_nan (num_or x d)"
  by (cases x) (simp_all add: num_or_def not_nan_def)

lemma num_or_is_fin: "cell_ok c \<Longrightarrow> is_fin d \<Longrightarrow> is_fin (num_or (parseFloat c) d)"
  by (cases "parseFloat c") (simp_all add: num_or_def cell_ok_def)

lemma magLoop_ran:
  "magLoop rows m0 = Inr mm \<Longrightarrow> mm key = Some m \<Longrightarrow>
   m0 key = Some m \<or> (\<exists>r \<in> set rows. m = mag_of_row r)"
proof (induction rows arbitrary: m0)
  case Nil
  then show ?case by simp
next
  case (Cons r rs)
  show ?case
  proof (cases "\<not> truthy (Some r) \<or> \<not> truthy (js_index r 0)")
    case True
    with Cons.prems have "magLoop rs m0 = Inr mm" by simp
    from Cons.IH [OF this Cons.prems(2)] show ?thesis by auto
  next
    case False
    with Cons.prems(1) obtain t where
      "magLoop rs (m0(substring16 t \<mapsto> mag_of_row r)) = Inr mm"
      by (auto split: sum.splits)
    from Cons.IH [OF this Cons.prems(2)] show ?thesis
      by (auto split: if_splits)
  qed
qed

lemma kpLoop_ran:
  "kpLoop rows m0 = Inr mm \<Longrightarrow> mm key = Some v \<Longrightarrow>
   m0 key = Some v \<or> (\<exists>r \<in> set rows. v = num_or (parseFloat (js_index r 1)) (Fin 0))"
proof (induction rows arbitrary: m0)
  case Nil
  then show ?case by simp
next
  case (Cons r rs)
  show ?case
  proof (cases "\<not> truthy (Some r) \<or> \<not> truthy (js_index r 0)")
    case True
    with Cons.prems have "kpLoop rs m0 = Inr mm" by simp
    from Cons.IH [OF this Cons.prems(2)] show ?thesis by auto
  next
    case False
    with Cons.prems(1) obtain t where
      "kpLoop rs (m0(substring16 t \<mapsto> num_or (parseFloat (js_index r 1)) (Fin 0))) = Inr mm"
      by (auto split: sum.splits)
    from Cons.IH [OF this Cons.prems(2)] show ?thesis
      by (auto split: if_splits)
  qed
qed

lemma xrayLoop_ran:
  "xrayLoop rows m0 = Inr mm \<Longrightarrow> mm key = Some v \<Longrightarrow>
   m0 key = Some v \<or> (\<exists>r \<in> set rows. v = num_or (parseFloat (js_member r ''flux'')) (Fin 0))"
proof (induction rows arbitrary: m0)
  case Nil
  then show ?case by simp
next
  case (Cons r rs)
  show ?case
  proof (cases "\<not> truthy (Some r) \<or> \<not> truthy (js_member r ''time_tag'')")
    case True
    with Cons.prems have "xrayLoop rs m0 = Inr mm" by simp
    from Cons.IH [OF this Cons.prems(2)] show ?thesis by auto
  next
    case False
    with Cons.prems(1) obtain t where
      "xrayLoop rs (m0(substring16 t \<mapsto> num_or (parseFloat (js_member r ''flux'')) (Fin 0))) = Inr mm"
      by (auto split: sum.splits)
    from Cons.IH [OF this Cons.prems(2)] show ?thesis
      by (auto split: if_splits)
  qed
qed

lemma magMap_of_ran:
  "magMap_of mag = Inr magMap \<Longrightarrow> magMap key = Some m \<Longrightarrow> \<exists>r \<in> set (drop 1 mag). m = mag_of_row r"
  using magLoop_ran [of "drop 1 mag" Map.empty magMap key m] by (simp add: magMap_of_def)

lemma kpMap_of_ran:
  "kpMap_of kpp = Inr kpMap \<Longrightarrow> kpMap key = Some v \<Longrightarrow>
   \<exists>r \<in> set (drop 1 kpp). v = num_or (parseFloat (js_index r 1)) (Fin 0)"
  using kpLoop_ran [of "drop 1 kpp" Map.empty kpMap key v] by (simp add: kpMap_of_def)

lemma xrayMap_of_ran:
  "xrayMap_of xrayp = Inr xrayMap \<Longrightarrow> xrayMap key = Some v \<Longrightarrow>
   \<exists>r \<in> set (array_elements xrayp). v = num_or (parseFloat (js_member r ''flux'')) (Fin 0)"
  using xrayLoop_ran [of "array_elements xrayp" Map.empty xrayMap key v] by (simp add: xrayMap_of_def)

text \<open>Any predicate on numbers that holds of everything the loop reads holds of every point.\<close>

lemma plasmaLoop_fields:
  assumes "plasmaLoop rows magMap kpMap xrayMap lastKp lastXray = Inr timeline"
    and "\<And>key m. magMap key = Some m \<Longrightarrow> mag_all P m"
    and "\<And>key v. kpMap key = Some v \<Longrightarrow> P v"
    and "\<And>key v. xrayMap key = Some v \<Longrightarrow> P v"
    and "P (Fin 0)" "P (Fin 5)"
    and "P lastKp" "P lastXray"
    and "\<And>r. r \<in> set rows \<Longrightarrow>
           P (num_or (parseFloat (js_index r 2)) (Fin 400)) \<and>
           P (num_or (parseFloat (js_index r 1)) (Fin 5)) \<and>
           P (num_or (parseFloat (js_index r 3)) (Fin 100000))"
  shows "list_all (point_all P) timeline"
  using assms(1,7,8,9)
proof (induction rows arbitrary: lastKp lastXray timeline)
  case Nil
  then show ?case by simp
next
  case (Cons r rs)
  show ?case
  proof (cases "emitted r")
    case False
    with Cons.prems have "plasmaLoop rs magMap kpMap xrayMap lastKp lastXray = Inr timeline"
      by (simp add: plasmaLoop_skip)
    from Cons.IH [OF this Cons.prems(2,3)] Cons.prems(4) show ?thesis by simp
  next
    case True
    from True Cons.prems(1) obtain timeStr tl' where
      rest: "plasmaLoop rs magMap kpMap xrayMap
          (carry kpMap (substring16 timeStr) lastKp)
          (carry xrayMap (substring16 timeStr) lastXray) = Inr tl'"
      and tl: "timeline = point_of r timeStr (mag_at magMap (substring16 timeStr))
         (carry kpMap (substring16 timeStr) lastKp)
         (carry xrayMap (substring16 timeStr) lastXray) # tl'"
      by (rule plasmaLoop_emit)
    have k: "P (carry kpMap (substring16 timeStr) lastKp)"
      using assms(3) Cons.prems(2) by (auto simp: carry_def split: option.splits)
    have x: "P (carry xrayMap (substring16 timeStr) lastXray)"
      using assms(4) Cons.prems(3) by (auto simp: carry_def split: option.splits)
    have m: "mag_all P (mag_at magMap (substring16 timeStr))"
      using assms(2,5,6) by (auto simp: mag_at_def mag_all_def split: option.splits)
    have cells: "P (num_or (parseFloat (js_index r 2)) (Fin 400)) \<and>
           P (num_or (parseFloat (js_index r 1)) (Fin 5)) \<and>
           P (num_or (parseFloat (js_index r 3)) (Fin 100000))"
      using Cons.prems(4) [of r] by simp
    have hd: "point_all P (point_of r timeStr (mag_at magMap (substring16 timeStr))
         (carry kpMap (substring16 timeStr) lastKp)
         (carry xrayMap (substring16 timeStr) lastXray))"
      using k x m cells by (simp add: point_all_def mag_all_def)
    have "list_all (point_all P) tl'"
      using Cons.prems(4) by (intro Cons.IH [OF rest k x]) simp
    with hd tl show ?thesis by simp
  qed
qed

lemma plasmaLoop_map:
  assumes "plasmaLoop rows magMap kpMap xrayMap lastKp lastXray = Inr timeline"
  shows "map speed timeline =
           map (\<lambda>r. num_or (parseFloat (js_index r 2)) (Fin 400)) (filter emitted rows)"
    and "map density timeline =
           map (\<lambda>r. num_or (parseFloat (js_index r 1)) (Fin 5)) (filter emitted rows)"
    and "map temp timeline =
           map (\<lambda>r. num_or (parseFloat (js_index r 3)) (Fin 100000)) (filter emitted rows)"
    and "map bt timeline = map (\<lambda>p. m_bt (mag_at magMap (key_of p))) timeline"
    and "map bz timeline = map (\<lambda>p. m_bz (mag_at magMap (key_of p))) timeline"
    and "map bx timeline = map (\<lambda>p. m_bx (mag_at magMap (key_of p))) timeline"
    and "map by_gsm timeline = map (\<lambda>p. m_by (mag_at magMap (key_of p))) timeline"
proof -
  note len = plasmaLoop_length [OF assms]
  note nth = plasmaLoop_nth [OF assms]
  have sp: "speed (timeline ! i) = num_or (parseFloat (js_index (filter emitted rows ! i) 2)) (Fin 400)"
    if "i < length timeline" for i
    by (subst nth [OF that]) simp
  have de: "density (timeline ! i) = num_or (parseFloat (js_index (filter emitted rows ! i) 1)) (Fin 5)"
    if "i < length timeline" for i
    by (subst nth [OF that]) simp
  have te: "temp (timeline ! i) = num_or (parseFloat (js_index (filter emitted rows ! i) 3)) (Fin 100000)"
    if "i < length timeline" for i
    by (subst nth [OF that]) simp
  show "map speed timeline =
           map (\<lambda>r. num_or (parseFloat (js_index r 2)) (Fin 400)) (filter emitted rows)"
    using sp by (intro nth_equalityI) (simp_all add: len)
  show "map density timeline =
           map (\<lambda>r. num_or (parseFloat (js_index r 1)) (Fin 5)) (filter emitted rows)"
    using de by (intro nth_equalityI) (simp_all add: len)
  show "map temp timeline =
           map (\<lambda>r. num_or (parseFloat (js_index r 3)) (Fin 100000)) (filter emitted rows)"
    using te by (intro nth_equalityI) (simp_all add: len)
  show "map bt timeline = map (\<lambda>p. m_bt (mag_at magMap (key_of p))) timeline"
    by (rule nth_equalityI) (simp, simp add: mag_nth [OF assms])
  show "map bz timeline = map (\<lambda>p. m_bz (mag_at magMap (key_of p))) timeline"
    by (rule nth_equalityI) (simp, simp add: mag_nth [OF assms])
  show "map bx timeline = map (\<lambda>p. m_bx (mag_at magMap (key_of p))) timeline"
    by (rule nth_equalityI) (simp, simp add: mag_nth [OF assms])
  show "map by_gsm timeline = map (\<lambda>p. m_by (mag_at magMap (key_of p))) timeline"
    by (rule nth_equalityI) (simp, simp add: mag_nth [OF assms])
qed

lemma not_nan_Fin: "not_nan (Fin r)"
  by (simp add: not_nan_def)

lemma num_or_Fin_not_nan: "not_nan (num_or x (Fin r))"
  by (rule num_or_not_nan [OF not_nan_Fin])

lemma mag_of_row_not_nan: "mag_all not_nan (mag_of_row r)"
  by (simp add: mag_all_def mag_of_row_def num_or_Fin_not_nan)

lemma mag_of_row_is_fin:
  "cell_ok (js_index r 1) \<Longrightarrow> cell_ok (js_index r 2) \<Longrightarrow> cell_ok (js_index r 3) \<Longrightarrow>
   cell_ok (js_index r 4) \<Longrightarrow> mag_all is_fin (mag_of_row r)"
  by (simp add: mag_all_def mag_of_row_def num_or_is_fin)

lemma timeline_not_nan:
  assumes "parseNOAAData plasma mag kpp xrayp = Inr timeline"
    and "magMap_of mag = Inr magMap"
    and "kpMap_of kpp = Inr kpMap"
    and "xrayMap_of xrayp = Inr xrayMap"
  shows "list_all (point_all not_nan) timeline"
proof (rule plasmaLoop_fields [OF parse_loop [OF assms]])
  show "mag_all not_nan m" if "magMap key = Some m" for key m
    using magMap_of_ran [OF assms(2) that] mag_of_row_not_nan by auto
  show "not_nan v" if "kpMap key = Some v" for key v
    using kpMap_of_ran [OF assms(3) that] by (auto simp: num_or_Fin_not_nan)
  show "not_nan v" if "xrayMap key = Some v" for key v
    using xrayMap_of_ran [OF assms(4) that] by (auto simp: num_or_Fin_not_nan)
  show "not_nan (num_or (parseFloat (js_index r 2)) (Fin 400)) \<and>
        not_nan (num_or (parseFloat (js_index r 1)) (Fin 5)) \<and>
        not_nan (num_or (parseFloat (js_index r 3)) (Fin 100000))" for r
    by (simp add: num_or_Fin_not_nan)
qed (simp_all add: not_nan_Fin)

lemma timeline_is_fin:
  assumes "parseNOAAData plasma mag kpp xrayp = Inr timeline"
    and "magMap_of mag = Inr magMap"
    and "kpMap_of kpp = Inr kpMap"
    and "xrayMap_of xrayp = Inr xrayMap"
    and fc: "finite_cells plasma mag kpp xrayp"
  shows "list_all (point_all is_fin) timeline"
proof (rule plasmaLoop_fields [OF parse_loop [OF assms(1-4)]])
  show "mag_all is_fin m" if "magMap key = Some m" for key m
    using magMap_of_ran [OF assms(2) that] fc
    by (auto simp: finite_cells_def list_all_iff mag_of_row_is_fin)
  show "is_fin v" if "kpMap key = Some v" for key v
    using kpMap_of_ran [OF assms(3) that] fc
    by (auto simp: finite_cells_def list_all_iff num_or_is_fin)
  show "is_fin v" if "xrayMap key = Some v" for key v
    using xrayMap_of_ran [OF assms(4) that] fc
    by (auto simp: finite_cells_def list_all_iff num_or_is_fin)
  show "is_fin (num_or (parseFloat (js_index r 2)) (Fin 400)) \<and>
        is_fin (num_or (parseFloat (js_index r 1)) (Fin 5)) \<and>
        is_fin (num_or (parseFloat (js_index r 3)) (Fin 100000))"
    if "r \<in> set (drop 1 plasma)" for r
    using that fc by (auto simp: finite_cells_def list_all_iff num_or_is_fin)
qed simp_all


text \<open>A plasma row whose density cell is no number, whose speed cell reads
  \<^verbatim>\<open>Infinity\<close> and whose temperature cell is missing.\<close>

definition bad_plasma :: "json list" where
  "bad_plasma =
     [JArr [JStr ''time_tag'', JStr ''density'', JStr ''speed'', JStr ''temperature''],
      JArr [JStr ''2025-02-01 00:00:00.000'', JStr ''n/a'', JStr ''Infinity'']]"


text \<open>
  Claim C3, as the code has it. Whenever parseNOAAData returns a timeline: the speed,
  density and temperature of each point are the parsed cells of its row, replaced by 400, 5
  and 100000 (not 0) when the cell is missing, no number or zero; bt, bz, bx and by are those
  of the magnetic-field reading of the point's minute, or 5, 0, 0, 0 when there is none; the
  cells of a stored magnetic-field reading, and a stored index or flux value, are the parsed
  cell replaced by 0 when it is missing, no number or zero; no numeric field of any point is
  NaN; and every numeric field is finite provided no cell parses to an infinity.
\<close>

theorem normalizer_defaults:
  assumes "parseNOAAData plasma mag kpp xrayp = Inr timeline"
    and "magMap_of mag = Inr magMap"
    and "kpMap_of kpp = Inr kpMap"
    and "xrayMap_of xrayp = Inr xrayMap"
  shows
    "(map speed timeline =
        map (\<lambda>r. num_or (parseFloat (js_index r 2)) (Fin 400)) (filter emitted (drop 1 plasma)) \<and>
      map density timeline =
        map (\<lambda>r. num_or (parseFloat (js_index r 1)) (Fin 5)) (filter emitted (drop 1 plasma)) \<and>
      map temp timeline =
        map (\<lambda>r. num_or (parseFloat (js_index r 3)) (Fin 100000))
          (filter emitted (drop 1 plasma))) \<and>
     (map bt timeline = map (\<lambda>p. m_bt (mag_at magMap (key_of p))) timeline \<and>
      map bz timeline = map (\<lambda>p. m_bz (mag_at magMap (key_of p))) timeline \<and>
      map bx timeline = map (\<lambda>p. m_bx (mag_at magMap (key_of p))) timeline \<and>
      map by_gsm timeline = map (\<lambda>p. m_by (mag_at magMap (key_of p))) timeline) \<and>
     ((\<forall>key m. magMap key = Some m \<longrightarrow> (\<exists>r \<in> set (drop 1 mag). m = mag_of_row r)) \<and>
      (\<forall>key v. kpMap key = Some v \<longrightarrow>
         (\<exists>r \<in> set (drop 1 kpp). v = num_or (parseFloat (js_index r 1)) (Fin 0))) \<and>
      (\<forall>key v. xrayMap key = Some v \<longrightarrow>
         (\<exists>r \<in> set (array_elements xrayp).
            v = num_or (parseFloat (js_member r ''flux'')) (Fin 0)))) \<and>
     list_all (point_all not_nan) timeline \<and>
     (finite_cells plasma mag kpp xrayp \<longrightarrow> list_all (point_all is_fin) timeline)"
proof -
  note loop = parse_loop [OF assms]
  have a: "map speed timeline =
        map (\<lambda>r. num_or (parseFloat (js_index r 2)) (Fin 400)) (filter emitted (drop 1 plasma)) \<and>
      map density timeline =
        map (\<lambda>r. num_or (parseFloat (js_index r 1)) (Fin 5)) (filter emitted (drop 1 plasma)) \<and>
      map temp timeline =
        map (\<lambda>r. num_or (parseFloat (js_index r 3)) (Fin 100000))
          (filter emitted (drop 1 plasma))"
    by (intro conjI plasmaLoop_map(1-3) [OF loop])
  have b: "map bt timeline = map (\<lambda>p. m_bt (mag_at magMap (key_of p))) timeline \<and>
      map bz timeline = map (\<lambda>p. m_bz (mag_at magMap (key_of p))) timeline \<and>
      map bx timeline = map (\<lambda>p. m_bx (mag_at magMap (key_of p))) timeline \<and>
      map by_gsm timeline = map (\<lambda>p. m_by (mag_at magMap (key_of p))) timeline"
    by (intro conjI plasmaLoop_map(4-7) [OF loop])
  have c: "(\<forall>key m. magMap key = Some m \<longrightarrow> (\<exists>r \<in> set (drop 1 mag). m = mag_of_row r)) \<and>
      (\<forall>key v. kpMap key = Some v \<longrightarrow>
         (\<exists>r \<in> set (drop 1 kpp). v = num_or (parseFloat (js_index r 1)) (Fin 0))) \<and>
      (\<forall>key v. xrayMap key = Some v \<longrightarrow>
         (\<exists>r \<in> set (array_elements xrayp).
            v = num_or (parseFloat (js_member r ''flux'')) (Fin 0)))"
    by (intro conjI allI impI magMap_of_ran [OF assms(2)] kpMap_of_ran [OF assms(3)]
        xrayMap_of_ran [OF assms(4)])
  have d: "list_all (point_all not_nan) timeline"
    by (rule timeline_not_nan [OF assms])
  have e: "finite_cells plasma mag kpp xrayp \<longrightarrow> list_all (point_all is_fin) timeline"
    by (intro impI timeline_is_fin [OF assms])
  show ?thesis by (intro conjI a b c d e)
qed


text \<open>
  The claim as stated fails on that row: the density is 5 and the temperature 100000 where
  the claim says 0, and the speed is infinite.
\<close>

theorem normalizer_defaults_counterexample:
  "parseNOAAData bad_plasma [] [] JNull =
     Inr [\<lparr>time = ''2025-02-01 00:00:00.000'', speed = PInf, density = Fin 5, temp = Fin 100000,
           bt = Fin 5, bz = Fin 0, bx = Fin 0, by_gsm = Fin 0, kp = Fin 2,
           xray = Fin 0.0000001\<rparr>]"
  by (simp add: parseNOAAData_def magMap_of_def kpMap_of_def xrayMap_of_def bad_plasma_def
      plasmaLoop.simps substring16_def point_of_def mag_at_def carry_def num_or_def Let_def
      parse_eval)


lemma ex_finite_cells: "finite_cells ex_plasma ex_mag ex_kp ex_xray"
  by (simp add: finite_cells_def cell_ok_def ex_plasma_def ex_mag_def ex_kp_def ex_xray_def
      parse_eval)

theorem normalizer_defaults_witness:
  "parseNOAAData ex_plasma ex_mag ex_kp ex_xray = Inr ex_timeline \<and>
   finite_cells ex_plasma ex_mag ex_kp ex_xray \<and>
   list_all (point_all not_nan) ex_timeline \<and>
   list_all (point_all is_fin) ex_timeline \<and>
   map bt ex_timeline = [Fin 4.5, Fin 5, Fin 5]"
  using normalizer_defaults [OF ex_parse ex_magMap ex_kpMap ex_xrayMap] ex_parse ex_finite_cells
  by (simp add: ex_timeline_def)

section \<open>Synthetic Generator: generateSimulatedTimeline\<close>














section \<open>Timeline Player\<close>

record TimelinePlayer =
  timeline :: "TelemetryPoint list"
  index :: int
  isLive :: bool
  loading :: bool
  error :: "string option"
  currentTime :: string
  progress :: real
  paused :: bool


subsection \<open>fetchLive\<close>





subsection \<open>getCurrent\<close>

text \<open>
  Arithmetic on numbers, before rounding: an operation on finite values is the operation
  of the reals, NaN propagates, and the infinities follow IEEE 754.
\<close>

fun num_neg :: "num \<Rightarrow> num" where
  "num_neg (Fin a) = Fin (- a)"
| "num_neg PInf = NInf"
| "num_neg NInf = PInf"
| "num_neg NaN = NaN"

fun num_add :: "num \<Rightarrow> num \<Rightarrow> num" where
  "num_add (Fin a) (Fin b) = Fin (a + b)"
| "num_add NaN y = NaN"
| "num_add x NaN = NaN"
| "num_add PInf NInf = NaN"
| "num_add NInf PInf = NaN"
| "num_add PInf y = PInf"
| "num_add x PInf = PInf"
| "num_add NInf y = NInf"
| "num_add x NInf = NInf"

definition num_sub :: "num \<Rightarrow> num \<Rightarrow> num" where
  "num_sub x y = num_add x (num_neg y)"

text \<open>The sign of a number that is not NaN: -1, 0 or 1.\<close>

fun num_sgn :: "num \<Rightarrow> real" where
  "num_sgn (Fin a) = sgn a"
| "num_sgn PInf = 1"
| "num_sgn NInf = - 1"
| "num_sgn NaN = 0"

fun num_mul :: "num \<Rightarrow> num \<Rightarrow> num" where
  "num_mul (Fin a) (Fin b) = Fin (a * b)"
| "num_mul NaN y = NaN"
| "num_mul x NaN = NaN"
| "num_mul x y =
     (if num_sgn x * num_sgn y = 0 then NaN
      else if 0 < num_sgn x * num_sgn y then PInf else NInf)"

text \<open>
  The result of an arithmetic operation on doubles is the exact result rounded to the
  nearest double, a tie going to the even mantissa. \<open>round_half_even\<close> is that rounding
  to an integer.
\<close>

definition round_half_even :: "real \<Rightarrow> int" where
  "round_half_even y =
     (let f = \<lfloor>y\<rfloor>; d = y - of_int f
      in if d < 1 / 2 then f else if 1 / 2 < d then f + 1 else if even f then f else f + 1)"

text \<open>
  The doubles of a magnitude from \<open>2^e\<close> up to \<open>2^(e+1)\<close>, for \<open>e\<close> from -1022
  to 1023, are the multiples of \<open>2^(e-52)\<close>; those of a smaller magnitude are the
  multiples of \<open>2^-1074\<close>. \<open>ulp_exponent 2045 x\<close> is the exponent of that spacing at
  \<open>x\<close>, found from the largest \<open>e\<close> downward.
\<close>

fun ulp_exponent :: "nat \<Rightarrow> real \<Rightarrow> int" where
  "ulp_exponent 0 x = - 1074"
| "ulp_exponent (Suc k) x =
     (if 2 powi (int k - 1021) \<le> \<bar>x\<bar> then int k - 1073 else ulp_exponent k x)"

definition nearest :: "real \<Rightarrow> real" where
  "nearest x =
     (let q = ulp_exponent 2045 x in of_int (round_half_even (x / 2 powi q)) * 2 powi q)"

text \<open>A result that rounds to a magnitude of \<open>2^1024\<close> or more is an infinity.\<close>

definition to_double :: "real \<Rightarrow> num" where
  "to_double x =
     (let r = nearest x
      in if 2 ^ 1024 \<le> r then PInf else if r \<le> - (2 ^ 1024) then NInf else Fin r)"

fun round64 :: "num \<Rightarrow> num" where
  "round64 (Fin x) = to_double x"
| "round64 PInf = PInf"
| "round64 NInf = NInf"
| "round64 NaN = NaN"

text \<open>
  Line 199: \<^verbatim>\<open>lerp = (v1, v2) => v1 + (v2 - v1) * t\<close>, a subtraction, a
  multiplication and an addition of doubles, each rounded.
\<close>

definition lerp :: "num \<Rightarrow> num \<Rightarrow> num \<Rightarrow> num" where
  "lerp t v1 v2 = round64 (num_add v1 (round64 (num_mul (round64 (num_sub v2 v1)) t)))"

record Latest =
  l_speed :: num
  l_density :: num
  l_temp :: num
  l_bt :: num
  l_bz :: num
  l_kp :: num

text \<open>The object getCurrent returns.\<close>

record Current =
  latest :: Latest
  xray_values :: "num list"
  c_currentTime :: string
  c_progress :: real
  c_isLive :: bool
  totalPoints :: nat
  c_index :: int

text \<open>
  Lines 192-220. The result is \<open>None\<close> for \<^verbatim>\<open>null\<close>. The index is an integer, as
  the constructor, fetchLive and advance leave it; with a negative index
  \<^verbatim>\<open>this.timeline[i]\<close> is undefined and reading its \<^verbatim>\<open>time\<close> throws. The player
  returned has the two fields the call writes; the progress is a quotient of doubles,
  rounded.
\<close>

definition getCurrent :: "TimelinePlayer \<Rightarrow> num \<Rightarrow> js_error + Current option \<times> TimelinePlayer" where
  "getCurrent p fraction =
     (if length (timeline p) = 0 then Inr (None, p)
      else
        (let i = min (index p) (int (length (timeline p)) - 1)
         in if i < 0
            then Inl (JsError ''Cannot read properties of undefined (reading 'time')'')
            else
              (let a = timeline p ! nat i;
                   b = timeline p ! nat (min (i + 1) (int (length (timeline p)) - 1));
                   t = fraction;
                   p' = p\<lparr>currentTime := time a,
                          progress := nearest (real_of_int (index p) /
                            real_of_int (max 1 (int (length (timeline p)) - 1)))\<rparr>
               in Inr (Some
                    \<lparr>latest =
                       \<lparr>l_speed = lerp t (speed a) (speed b),
                        l_density = lerp t (density a) (density b),
                        l_temp = lerp t (temp a) (temp b),
                        l_bt = lerp t (bt a) (bt b),
                        l_bz = lerp t (bz a) (bz b),
                        l_kp = lerp t (kp a) (kp b)\<rparr>,
                     xray_values = [xray a, lerp t (xray a) (xray b)],
                     c_currentTime = time a,
                     c_progress = progress p',
                     c_isLive = isLive p,
                     totalPoints = length (timeline p),
                     c_index = index p\<rparr>, p'))))"

subsection \<open>advance and togglePause\<close>

text \<open>Lines 223-231. The boolean is the signal to fetch again.\<close>

definition advance :: "TimelinePlayer \<Rightarrow> bool \<times> TimelinePlayer" where
  "advance p =
     (if paused p then (False, p)
      else
        (let p1 = p\<lparr>index := index p + 1\<rparr>
         in if index p1 \<ge> int (length (timeline p1)) - 1 then (True, p1\<lparr>index := 0\<rparr>)
            else (False, p1)))"

text \<open>Lines 239-242.\<close>

definition togglePause :: "TimelinePlayer \<Rightarrow> bool \<times> TimelinePlayer" where
  "togglePause p = (\<not> paused p, p\<lparr>paused := \<not> paused p\<rparr>)"

text \<open>
  A run of \<open>n\<close> calls of advance: the signals returned, in order, and the player after
  the last call.
\<close>

fun advance_n :: "nat \<Rightarrow> TimelinePlayer \<Rightarrow> bool list \<times> TimelinePlayer" where
  "advance_n 0 p = ([], p)"
| "advance_n (Suc n) p =
     (case advance p of
        (looped, p') \<Rightarrow> (case advance_n n p' of (signals, p'') \<Rightarrow> (looped # signals, p'')))"

section \<open>Properties of the Timeline Player\<close>

subsection \<open>The fallback of fetchLive\<close>







subsection \<open>Rounding to binary64\<close>

lemma round_half_even_err: "\<bar>of_int (round_half_even y) - y\<bar> \<le> 1 / 2"
  unfolding round_half_even_def Let_def by (auto; linarith)

lemma round_half_even_int [simp]: "round_half_even (of_int n) = n"
  by (simp add: round_half_even_def)

lemma round_half_even_le: "y \<le> of_int N \<Longrightarrow> round_half_even y \<le> N"
  unfolding round_half_even_def Let_def by (auto simp: floor_le_iff; linarith)

lemma round_half_even_ge: "of_int N \<le> y \<Longrightarrow> N \<le> round_half_even y"
  unfolding round_half_even_def Let_def by (auto simp: le_floor_iff; linarith)

lemma two_powi_less_iff: "(2::real) powi a < 2 powi b \<longleftrightarrow> a < b"
proof
  assume l: "(2::real) powi a < 2 powi b"
  show "a < b"
  proof (rule ccontr)
    assume "\<not> a < b"
    then have "b \<le> a" by simp
    then have "(2::real) powi b \<le> 2 powi a" by (intro power_int_increasing) auto
    with l show False by simp
  qed
next
  assume "a < b"
  then show "(2::real) powi a < 2 powi b" by (intro power_int_strict_increasing) auto
qed

lemma two_powi_le_iff: "(2::real) powi a \<le> 2 powi b \<longleftrightarrow> a \<le> b"
  using two_powi_less_iff [of b a] by auto

lemma two_powi_Suc: "(2::real) powi (e + 1) = 2 * 2 powi e"
  by (simp add: power_int_add)

lemma ulp_exponent_ge: "- 1074 \<le> ulp_exponent k x"
  by (induction k) auto

lemma ulp_exponent_upper:
  "\<bar>x\<bar> < 2 powi (int k - 1021) \<Longrightarrow> \<bar>x\<bar> < 2 powi (ulp_exponent k x + 53)"
proof (induction k)
  case 0
  then show ?case by simp
next
  case (Suc k)
  show ?case
  proof (cases "2 powi (int k - 1021) \<le> \<bar>x\<bar>")
    case True
    have "int k - 1073 + 53 = int (Suc k) - 1021" by simp
    with True Suc.prems show ?thesis by simp
  next
    case False
    then have "\<bar>x\<bar> < 2 powi (int k - 1021)" by simp
    from Suc.IH [OF this] False show ?thesis by simp
  qed
qed

lemma ulp_exponent_lower:
  "- 1074 < ulp_exponent k x \<Longrightarrow> 2 powi (ulp_exponent k x + 52) \<le> \<bar>x\<bar>"
proof (induction k)
  case 0
  then show ?case by simp
next
  case (Suc k)
  show ?case
  proof (cases "2 powi (int k - 1021) \<le> \<bar>x\<bar>")
    case True
    have "int k - 1073 + 52 = int k - 1021" by simp
    with True show ?thesis by simp
  next
    case False
    with Suc show ?thesis by simp
  qed
qed

text \<open>The spacing at a number whose binade is known.\<close>

lemma ulp_exponent_eq:
  assumes "2 powi e \<le> \<bar>x\<bar>" "\<bar>x\<bar> < 2 powi (e + 1)" "- 1022 \<le> e" "e \<le> 1023"
  shows "ulp_exponent 2045 x = e - 52"
proof -
  let ?q = "ulp_exponent 2045 x"
  have "(2::real) powi (e + 1) \<le> 2 powi (int 2045 - 1021)"
    using assms(4) by (intro power_int_increasing) auto
  with assms(2) have "\<bar>x\<bar> < 2 powi (int 2045 - 1021)" by simp
  from ulp_exponent_upper [OF this] assms(1) have "(2::real) powi e < 2 powi (?q + 53)" by simp
  then have 1: "e < ?q + 53" by (simp add: two_powi_less_iff)
  have 2: "?q \<le> e - 52"
  proof (rule ccontr)
    assume "\<not> ?q \<le> e - 52"
    then have gt: "e - 52 < ?q" by simp
    with assms(3) have "- 1074 < ?q" by simp
    from ulp_exponent_lower [OF this] assms(2) have "(2::real) powi (?q + 52) < 2 powi (e + 1)"
      by simp
    then have "?q + 52 < e + 1" by (simp add: two_powi_less_iff)
    with gt show False by simp
  qed
  from 1 2 show ?thesis by simp
qed

text \<open>
  The error of one rounding: half a unit in the last place, which is a relative error of
  \<open>2^-53\<close> or, below the normal range, an absolute error of \<open>2^-1075\<close>.
\<close>

lemma nearest_err: "\<bar>nearest x - x\<bar> \<le> \<bar>x\<bar> / 2 ^ 53 + 1 / 2 ^ 1075"
proof -
  define q where "q = ulp_exponent 2045 x"
  define u :: real where "u = 2 powi q"
  have u: "0 < u" by (simp add: u_def)
  have r: "nearest x = of_int (round_half_even (x / u)) * u"
    by (simp add: nearest_def Let_def q_def u_def)
  have "nearest x - x = (of_int (round_half_even (x / u)) - x / u) * u"
    using u by (simp add: r field_simps)
  then have "\<bar>nearest x - x\<bar> = \<bar>of_int (round_half_even (x / u)) - x / u\<bar> * u"
    using u by (simp add: abs_mult)
  also have "\<dots> \<le> 1 / 2 * u"
    using round_half_even_err [of "x / u"] u by (intro mult_right_mono) auto
  finally have e: "\<bar>nearest x - x\<bar> \<le> u / 2" by simp
  have "u / 2 \<le> \<bar>x\<bar> / 2 ^ 53 + 1 / 2 ^ 1075"
  proof (cases "q = - 1074")
    case True
    then have "u = 1 / 2 ^ 1074" by (simp add: u_def power_int_minus field_simps)
    then have "u / 2 = 1 / 2 ^ 1075" by simp
    moreover have "0 \<le> \<bar>x\<bar> / 2 ^ 53" by simp
    ultimately show ?thesis by linarith
  next
    case False
    with ulp_exponent_ge [of 2045 x] have "- 1074 < ulp_exponent 2045 x" by (simp add: q_def)
    from ulp_exponent_lower [OF this] have "2 powi (q + 52) \<le> \<bar>x\<bar>" by (simp add: q_def)
    then have "u * 2 ^ 52 \<le> \<bar>x\<bar>" by (simp add: u_def power_int_add)
    then have "u / 2 \<le> \<bar>x\<bar> / 2 ^ 53" by (simp add: field_simps)
    moreover have "(0::real) \<le> 1 / 2 ^ 1075" by simp
    ultimately show ?thesis by linarith
  qed
  with e show ?thesis by linarith
qed

text \<open>Rounding does not pass a power of two.\<close>

lemma nearest_abs_le:
  assumes "\<bar>x\<bar> \<le> 2 powi e" "- 1074 \<le> e"
  shows "\<bar>nearest x\<bar> \<le> 2 powi e"
proof -
  define q where "q = ulp_exponent 2045 x"
  define u :: real where "u = 2 powi q"
  have u: "0 < u" by (simp add: u_def)
  have r: "nearest x = of_int (round_half_even (x / u)) * u"
    by (simp add: nearest_def Let_def q_def u_def)
  have qe: "q \<le> e"
  proof (cases "q = - 1074")
    case True
    with assms(2) show ?thesis by simp
  next
    case False
    with ulp_exponent_ge [of 2045 x] have "- 1074 < ulp_exponent 2045 x" by (simp add: q_def)
    from ulp_exponent_lower [OF this] assms(1) have "(2::real) powi (q + 52) \<le> 2 powi e"
      by (simp add: q_def)
    then show ?thesis by (simp add: two_powi_le_iff)
  qed
  define N :: int where "N = 2 ^ nat (e - q)"
  have "(2::real) powi e = 2 powi (e - q) * 2 powi q" by (simp flip: power_int_add)
  also have "(2::real) powi (e - q) = of_int N" using qe by (simp add: N_def power_int_def)
  finally have eN: "2 powi e = of_int N * u" by (simp add: u_def)
  from assms(1) have "x \<le> of_int N * u" "- (of_int N * u) \<le> x" by (simp_all add: eN)
  then have "x / u \<le> of_int N" "of_int (- N) \<le> x / u" using u by (simp_all add: field_simps)
  then have "round_half_even (x / u) \<le> N" "- N \<le> round_half_even (x / u)"
    by (simp_all add: round_half_even_le round_half_even_ge)
  then have "\<bar>round_half_even (x / u)\<bar> \<le> N" by simp
  then have "\<bar>real_of_int (round_half_even (x / u))\<bar> \<le> of_int N" by linarith
  then have "\<bar>real_of_int (round_half_even (x / u))\<bar> * u \<le> of_int N * u"
    using u by (intro mult_right_mono) auto
  then show ?thesis using u by (simp add: r eN abs_mult)
qed

lemma range_if:
  "\<bar>r\<bar> < (M::real) \<Longrightarrow> (if M \<le> r then PInf else if r \<le> - M then NInf else Fin r) = Fin r"
  by auto

lemma to_double_Fin:
  assumes "\<bar>x\<bar> \<le> 2 powi e" "- 1074 \<le> e" "e \<le> 1023"
  shows "to_double x = Fin (nearest x)"
proof -
  have "\<bar>nearest x\<bar> \<le> 2 powi e" by (rule nearest_abs_le [OF assms(1,2)])
  also have "(2::real) powi e \<le> 2 powi 1023" using assms(3) by (intro power_int_increasing) auto
  also have "(2::real) powi 1023 < 2 powi 1024" by (intro power_int_strict_increasing) auto
  also have "(2::real) powi 1024 = 2 ^ 1024" by (simp only: power_int_numeral)
  finally have "\<bar>nearest x\<bar> < 2 ^ 1024" .
  then show ?thesis unfolding to_double_def Let_def by (rule range_if)
qed

lemma to_double_bounded:
  assumes "\<bar>x\<bar> \<le> 2 powi e" "- 1074 \<le> e" "e \<le> 1023"
  obtains r where "to_double x = Fin r" "\<bar>r\<bar> \<le> 2 powi e"
    "\<bar>r - x\<bar> \<le> \<bar>x\<bar> / 2 ^ 53 + 1 / 2 ^ 1075"
  using to_double_Fin [OF assms] nearest_abs_le [OF assms(1,2)] nearest_err [of x] by blast

lemma nearest_0 [simp]: "nearest 0 = 0"
  by (simp add: nearest_def round_half_even_def)

lemma to_double_0 [simp]: "to_double 0 = Fin 0"
  by (simp add: to_double_def)

text \<open>Rounding a number whose binade is known: the form in which examples are computed.\<close>

lemma nearest_eval:
  assumes "2 powi e \<le> \<bar>x\<bar>" "\<bar>x\<bar> < 2 powi (e + 1)" "- 1022 \<le> e" "e \<le> 1023"
  shows "nearest x = of_int (round_half_even (x / 2 powi (e - 52))) * 2 powi (e - 52)"
  by (simp add: nearest_def Let_def ulp_exponent_eq [OF assms])

lemma to_double_eval:
  assumes "2 powi e \<le> \<bar>x\<bar>" "\<bar>x\<bar> < 2 powi (e + 1)" "- 1022 \<le> e" "e \<le> 1022"
  shows "to_double x = Fin (of_int (round_half_even (x / 2 powi (e - 52))) * 2 powi (e - 52))"
proof -
  have "\<bar>x\<bar> \<le> 2 powi (e + 1)" using assms(2) by simp
  from to_double_Fin [OF this] assms(3,4) have "to_double x = Fin (nearest x)" by simp
  moreover have "nearest x = of_int (round_half_even (x / 2 powi (e - 52))) * 2 powi (e - 52)"
    using assms by (intro nearest_eval) auto
  ultimately show ?thesis by simp
qed

text \<open>A rounded number is a double: rounding it again leaves it unchanged.\<close>

lemma nearest_idem:
  assumes "\<bar>nearest x\<bar> < 2 powi 1024"
  shows "nearest (nearest x) = nearest x"
proof -
  define q where "q = ulp_exponent 2045 x"
  define u :: real where "u = 2 powi q"
  define n where "n = round_half_even (x / u)"
  define r where "r = nearest x"
  define q' where "q' = ulp_exponent 2045 r"
  have u: "0 < u" by (simp add: u_def)
  have r: "r = of_int n * u" by (simp add: r_def nearest_def Let_def q_def u_def n_def)
  have rr: "nearest r = of_int (round_half_even (r / 2 powi q')) * 2 powi q'"
    by (simp add: nearest_def Let_def q'_def)
  have int: "nearest r = r" if "r / 2 powi q' = of_int k" for k
  proof -
    have "nearest r = of_int k * 2 powi q'" by (simp add: rr that)
    also have "\<dots> = r / 2 powi q' * 2 powi q'" by (simp add: that)
    also have "\<dots> = r" by simp
    finally show ?thesis .
  qed
  show ?thesis
  proof (cases "q' \<le> q")
    case True
    have "u = 2 powi (q - q') * 2 powi q'" by (simp add: u_def flip: power_int_add)
    also have "(2::real) powi (q - q') = of_int (2 ^ nat (q - q'))"
      using True by (simp add: power_int_def)
    finally have "r / 2 powi q' = of_int (n * 2 ^ nat (q - q'))" by (simp add: r)
    from int [OF this] show ?thesis by (simp add: r_def)
  next
    case False
    then have gt: "q < q'" by simp
    with ulp_exponent_ge [of 2045 x] have "- 1074 < ulp_exponent 2045 r"
      by (simp add: q_def q'_def)
    from ulp_exponent_lower [OF this] have lo: "2 powi (q' + 52) \<le> \<bar>r\<bar>" by (simp add: q'_def)
    have xs: "\<bar>x\<bar> < 2 powi 1024"
    proof (rule ccontr)
      assume "\<not> \<bar>x\<bar> < 2 powi 1024"
      then have big: "2 powi 1024 \<le> \<bar>x\<bar>" by simp
      have "(2::real) powi (int 2044 - 1021) \<le> 2 powi 1024"
        by (intro power_int_increasing) auto
      with big have "2 powi (int 2044 - 1021) \<le> \<bar>x\<bar>" by linarith
      then have "ulp_exponent (Suc 2044) x = int 2044 - 1073"
        by (simp only: ulp_exponent.simps if_True)
      then have q971: "q = 971" by (simp add: q_def)
      have "(2::real) powi 1024 = 2 powi 53 * u" by (simp add: u_def q971 flip: power_int_add)
      also have "(2::real) powi 53 = of_int (2 ^ 53)" by (simp add: power_int_def)
      finally have e: "2 powi 1024 = of_int (2 ^ 53) * u" .
      have "of_int (2 ^ 53) \<le> x / u \<or> x / u \<le> of_int (- (2 ^ 53))"
        using big u unfolding e by (cases "0 \<le> x") (auto simp: field_simps)
      then have "2 ^ 53 \<le> n \<or> n \<le> - (2 ^ 53)"
        unfolding n_def using round_half_even_ge round_half_even_le by blast
      then have "of_int (2 ^ 53) \<le> \<bar>real_of_int n\<bar>" by linarith
      then have "of_int (2 ^ 53) * u \<le> \<bar>real_of_int n\<bar> * u"
        using u by (intro mult_right_mono) auto
      then have "2 powi 1024 \<le> \<bar>r\<bar>" using u unfolding e by (simp add: r abs_mult)
      with assms show False by (simp add: r_def)
    qed
    have "\<bar>x\<bar> < 2 powi (int 2045 - 1021)" using xs by simp
    from ulp_exponent_upper [OF this] have up: "\<bar>x\<bar> < 2 powi (q + 53)" by (simp add: q_def)
    have "(2::real) powi (q + 53) = 2 powi 53 * u" by (simp add: u_def power_int_add)
    also have "(2::real) powi 53 = of_int (2 ^ 53)" by (simp add: power_int_def)
    finally have e: "2 powi (q + 53) = of_int (2 ^ 53) * u" .
    from up have "x / u \<le> of_int (2 ^ 53)" "of_int (- (2 ^ 53)) \<le> x / u"
      using u unfolding e by (auto simp: field_simps abs_less_iff)
    then have "n \<le> 2 ^ 53" "- (2 ^ 53) \<le> n"
      unfolding n_def by (simp_all only: round_half_even_le round_half_even_ge)
    then have "\<bar>real_of_int n\<bar> \<le> of_int (2 ^ 53)" by linarith
    then have "\<bar>real_of_int n\<bar> * u \<le> of_int (2 ^ 53) * u"
      using u by (intro mult_right_mono) auto
    then have hi: "\<bar>r\<bar> \<le> 2 powi (q + 53)" using u unfolding e by (simp add: r abs_mult)
    from lo hi have "(2::real) powi (q' + 52) \<le> 2 powi (q + 53)" by linarith
    then have "q' + 52 \<le> q + 53" by (simp only: two_powi_le_iff)
    with gt have q': "q' = q + 1" by simp
    have "q' + 52 = q + 53" by (simp add: q')
    with lo have "2 powi (q + 53) \<le> \<bar>r\<bar>" by simp
    with hi have ar: "\<bar>r\<bar> = 2 powi (q + 53)" by linarith
    have "q + 53 = 52 + q'" by (simp add: q')
    then have "(2::real) powi (q + 53) = 2 powi (52 + q')" by (simp only:)
    also have "\<dots> = 2 powi 52 * 2 powi q'" by (rule power_int_add) simp
    also have "(2::real) powi 52 = of_int (2 ^ 52)" by (simp add: power_int_def)
    finally have "\<bar>r\<bar> = of_int (2 ^ 52) * 2 powi q'" using ar by simp
    then have "r / 2 powi q' = of_int (2 ^ 52) \<or> r / 2 powi q' = of_int (- (2 ^ 52))"
      by (auto simp: abs_if field_simps split: if_splits)
    then show ?thesis using int unfolding r_def by blast
  qed
qed

lemma to_double_idem:
  assumes "to_double x = Fin r"
  shows "to_double r = Fin r"
proof -
  from assms have r: "r = nearest x" and b: "\<not> 2 ^ 1024 \<le> nearest x" "\<not> nearest x \<le> - (2 ^ 1024)"
    by (auto simp: to_double_def Let_def split: if_splits)
  from b have lt: "\<bar>nearest x\<bar> < 2 ^ 1024" by linarith
  have "(2::real) powi 1024 = 2 ^ 1024" by (simp only: power_int_numeral)
  with lt have "\<bar>nearest x\<bar> < 2 powi 1024" by simp
  then have "nearest (nearest x) = nearest x" by (rule nearest_idem)
  with lt have "to_double (nearest x) = Fin (nearest x)"
    unfolding to_double_def Let_def by (simp only: range_if)
  then show ?thesis by (simp add: r)
qed

subsection \<open>getCurrent\<close>

text \<open>
  The raw point as getCurrent reports it, the arithmetic midpoint of two finite numbers,
  and the two points getCurrent reads: the one at the cursor and the next one, clamped to
  the last.
\<close>

definition raw_latest :: "TelemetryPoint \<Rightarrow> Latest" where
  "raw_latest a =
     \<lparr>l_speed = speed a, l_density = density a, l_temp = temp a, l_bt = bt a, l_bz = bz a,
      l_kp = kp a\<rparr>"

fun midpoint :: "num \<Rightarrow> num \<Rightarrow> num" where
  "midpoint (Fin a) (Fin b) = Fin ((a + b) / 2)"
| "midpoint x y = NaN"

definition mid_latest :: "TelemetryPoint \<Rightarrow> TelemetryPoint \<Rightarrow> Latest" where
  "mid_latest a b =
     \<lparr>l_speed = midpoint (speed a) (speed b), l_density = midpoint (density a) (density b),
      l_temp = midpoint (temp a) (temp b), l_bt = midpoint (bt a) (bt b),
      l_bz = midpoint (bz a) (bz b), l_kp = midpoint (kp a) (kp b)\<rparr>"

definition point_at :: "TimelinePlayer \<Rightarrow> TelemetryPoint" where
  "point_at p = timeline p ! nat (index p)"

definition next_point :: "TimelinePlayer \<Rightarrow> TelemetryPoint" where
  "next_point p = timeline p ! min (nat (index p) + 1) (length (timeline p) - 1)"

text \<open>
  A finite double: a finite number that rounding leaves unchanged, which every finite
  number of a JavaScript program is. A number of a magnitude of at most \<open>2^1021\<close>
  (about \<open>2.2e307\<close>): of two such numbers the difference, its product with a fraction
  between 0 and 1, and the sum of that and one of the two are all in the range of a double.
\<close>

fun is_double :: "num \<Rightarrow> bool" where
  "is_double (Fin x) = (to_double x = Fin x)"
| "is_double PInf = False"
| "is_double NInf = False"
| "is_double NaN = False"

fun moderate :: "num \<Rightarrow> bool" where
  "moderate (Fin x) = (\<bar>x\<bar> \<le> 2 ^ 1021)"
| "moderate PInf = False"
| "moderate NInf = False"
| "moderate NaN = False"

text \<open>
  \<open>near v1 v2 r x\<close>: the number \<open>r\<close>, interpolated between \<open>v1\<close> and \<open>v2\<close>, is
  finite and within the rounding error of three operations of the exact value \<open>x\<close>.
\<close>

fun near :: "num \<Rightarrow> num \<Rightarrow> num \<Rightarrow> num \<Rightarrow> bool" where
  "near (Fin a) (Fin b) (Fin r) (Fin x) =
     (\<bar>r - x\<bar> \<le> (\<bar>a\<bar> + \<bar>b\<bar>) / 2 ^ 50 + 1 / 2 ^ 1073)"
| "near v1 v2 r x = False"

definition near_latest :: "TelemetryPoint \<Rightarrow> TelemetryPoint \<Rightarrow> Latest \<Rightarrow> Latest \<Rightarrow> bool" where
  "near_latest a b got want =
     (near (speed a) (speed b) (l_speed got) (l_speed want) \<and>
      near (density a) (density b) (l_density got) (l_density want) \<and>
      near (temp a) (temp b) (l_temp got) (l_temp want) \<and>
      near (bt a) (bt b) (l_bt got) (l_bt want) \<and>
      near (bz a) (bz b) (l_bz got) (l_bz want) \<and>
      near (kp a) (kp b) (l_kp got) (l_kp want))"

text \<open>
  The value of a decimal literal, and of a cell that parseFloat reads in the program: the
  double nearest to it.
\<close>

definition literal :: "real \<Rightarrow> num" where
  "literal x = round64 (Fin x)"

lemma literal_ok:
  assumes "\<bar>x\<bar> \<le> 2 ^ 1021"
  shows "is_double (literal x)" and "moderate (literal x)"
proof -
  have x: "\<bar>x\<bar> \<le> 2 powi 1021" using assms by (simp only: power_int_numeral)
  then have r: "to_double x = Fin (nearest x)" by (rule to_double_Fin) auto
  from to_double_idem [OF r] show "is_double (literal x)" by (simp add: literal_def r)
  have "\<bar>nearest x\<bar> \<le> 2 powi 1021" using x by (rule nearest_abs_le) auto
  then have "\<bar>nearest x\<bar> \<le> 2 ^ 1021" by (simp only: power_int_numeral)
  then show "moderate (literal x)" by (simp only: literal_def round64.simps r moderate.simps)
qed

text \<open>With equal end points the interpolation is exact, at every finite fraction.\<close>

lemma lerp_same:
  assumes "is_double v"
  shows "lerp (Fin t) v v = v"
proof -
  from assms obtain x where v: "v = Fin x" and x: "to_double x = Fin x" by (cases v) auto
  show ?thesis by (simp add: lerp_def num_sub_def v x)
qed

text \<open>At fraction 0 it is exact, when the difference does not overflow.\<close>

lemma lerp_0:
  assumes "is_double v1" "moderate v1" "moderate v2"
  shows "lerp (Fin 0) v1 v2 = v1"
proof -
  from assms obtain a where a: "v1 = Fin a" "to_double a = Fin a" "\<bar>a\<bar> \<le> 2 powi 1021"
    by (cases v1) (auto simp only: is_double.simps moderate.simps power_int_numeral)
  from assms obtain b where b: "v2 = Fin b" "\<bar>b\<bar> \<le> 2 powi 1021"
    by (cases v2) (auto simp only: moderate.simps power_int_numeral)
  have "(2::real) powi (1021 + 1) = 2 * 2 powi 1021" by (rule two_powi_Suc)
  with a(3) b(2) have "\<bar>b - a\<bar> \<le> 2 powi (1021 + 1)" by linarith
  then obtain d where "to_double (b - a) = Fin d" by (rule to_double_bounded) auto
  then show ?thesis by (simp add: lerp_def num_sub_def a b)
qed

text \<open>
  At a fraction between 0 and 1 the result is finite and within the error of the three
  roundings of the exact value \<open>a + (b - a) * t\<close>.
\<close>

lemma lerp_near:
  assumes "moderate (Fin a)" "moderate (Fin b)" "0 \<le> t" "t \<le> 1"
  shows "near (Fin a) (Fin b) (lerp (Fin t) (Fin a) (Fin b)) (Fin (a + (b - a) * t))"
proof -
  define B :: real where "B = 2 powi 1021"
  define tau :: real where "tau = 1 / 2 ^ 1075"
  have tau: "0 \<le> tau" by (simp add: tau_def)
  have ab: "\<bar>a\<bar> \<le> B" "\<bar>b\<bar> \<le> B"
    using assms(1,2) by (simp_all only: moderate.simps B_def power_int_numeral)
  have B2: "(2::real) powi (1021 + 1) = 2 * B" unfolding B_def by (rule two_powi_Suc)
  have "(2::real) powi (1021 + 1 + 1) = 2 * 2 powi (1021 + 1)" by (rule two_powi_Suc)
  with B2 have B3: "(2::real) powi (1021 + 1 + 1) = 4 * B" by simp
  have "\<bar>b - a\<bar> \<le> 2 powi (1021 + 1)" using ab B2 by linarith
  then obtain d where d: "to_double (b - a) = Fin d" "\<bar>d\<bar> \<le> 2 powi (1021 + 1)"
    "\<bar>d - (b - a)\<bar> \<le> \<bar>b - a\<bar> / 2 ^ 53 + tau"
    unfolding tau_def by (rule to_double_bounded) auto
  have dt: "\<bar>d * t\<bar> \<le> \<bar>d\<bar>"
    using assms(3,4) by (simp add: abs_mult mult_left_le)
  with d(2) have "\<bar>d * t\<bar> \<le> 2 powi (1021 + 1)" by linarith
  then obtain m where m: "to_double (d * t) = Fin m" "\<bar>m\<bar> \<le> 2 powi (1021 + 1)"
    "\<bar>m - d * t\<bar> \<le> \<bar>d * t\<bar> / 2 ^ 53 + tau"
    unfolding tau_def by (rule to_double_bounded) auto
  have "\<bar>a + m\<bar> \<le> 2 powi (1021 + 1 + 1)" using ab(1) m(2) B2 B3 by linarith
  then obtain r where r: "to_double (a + m) = Fin r"
    "\<bar>r - (a + m)\<bar> \<le> \<bar>a + m\<bar> / 2 ^ 53 + tau"
    unfolding tau_def by (rule to_double_bounded) auto
  have l: "lerp (Fin t) (Fin a) (Fin b) = Fin r"
    by (simp add: lerp_def num_sub_def d m r)
  define A where "A = \<bar>a\<bar> + \<bar>b\<bar>"
  define X1 where "X1 = \<bar>b - a\<bar>"
  define D where "D = \<bar>d\<bar>"
  define X2 where "X2 = \<bar>d * t\<bar>"
  define M where "M = \<bar>m\<bar>"
  define X3 where "X3 = \<bar>a + m\<bar>"
  define E1 where "E1 = \<bar>d - (b - a)\<bar>"
  define E2 where "E2 = \<bar>m - d * t\<bar>"
  define E3 where "E3 = \<bar>r - (a + m)\<bar>"
  define E where "E = \<bar>r - (a + (b - a) * t)\<bar>"
  have x1: "X1 \<le> A" unfolding A_def X1_def by linarith
  have e1: "E1 \<le> X1 / 2 ^ 53 + tau" using d(3) by (simp add: E1_def X1_def)
  have dA: "D \<le> X1 + E1" unfolding D_def X1_def E1_def by linarith
  have x2: "X2 \<le> D" using dt by (simp add: X2_def D_def)
  have e2: "E2 \<le> X2 / 2 ^ 53 + tau" using m(3) by (simp add: E2_def X2_def)
  have mA: "M \<le> X2 + E2" unfolding M_def X2_def E2_def by linarith
  have x3: "X3 \<le> A + M" unfolding X3_def A_def M_def by linarith
  have e3: "E3 \<le> X3 / 2 ^ 53 + tau" using r(2) by (simp add: E3_def X3_def)
  have "\<bar>(d - (b - a)) * t\<bar> \<le> E1"
    using assms(3,4) unfolding E1_def by (simp add: abs_mult mult_left_le)
  moreover have "r - (a + (b - a) * t) = (r - (a + m)) + (m - d * t) + (d - (b - a)) * t"
    by (simp add: algebra_simps)
  ultimately have e: "E \<le> E3 + E2 + E1"
    unfolding E_def E2_def E3_def by linarith
  have A: "0 \<le> A" unfolding A_def by simp
  have "E \<le> A / 2 ^ 50 + 4 * tau"
    using e e1 e2 e3 x1 x2 x3 dA mA A tau by simp
  moreover have "4 * tau = 1 / 2 ^ 1073" unfolding tau_def by simp
  ultimately show ?thesis by (simp add: l A_def E_def)
qed

lemma lerp_1_near:
  assumes "moderate v1" "moderate v2"
  shows "near v1 v2 (lerp (Fin 1) v1 v2) v2"
proof -
  from assms obtain a b where v: "v1 = Fin a" "v2 = Fin b" by (cases v1; cases v2) auto
  have "a + (b - a) * 1 = b" by simp
  with lerp_near [of a b 1] assms show ?thesis unfolding v by simp
qed

lemma lerp_half_near:
  assumes "moderate v1" "moderate v2"
  shows "near v1 v2 (lerp (Fin (1 / 2)) v1 v2) (midpoint v1 v2)"
proof -
  from assms obtain a b where v: "v1 = Fin a" "v2 = Fin b" by (cases v1; cases v2) auto
  have eq: "a + (b - a) * (1 / 2) = (a + b) / 2" by (simp add: field_simps)
  have "near (Fin a) (Fin b) (lerp (Fin (1 / 2)) (Fin a) (Fin b)) (Fin (a + (b - a) * (1 / 2)))"
    using assms unfolding v by (intro lerp_near) auto
  then show ?thesis by (simp only: v eq midpoint.simps)
qed

lemma getCurrent_in_range:
  assumes "timeline p \<noteq> []" "0 \<le> index p" "index p < int (length (timeline p))"
  shows "getCurrent p t =
     Inr (Some
       \<lparr>latest =
          \<lparr>l_speed = lerp t (speed (point_at p)) (speed (next_point p)),
           l_density = lerp t (density (point_at p)) (density (next_point p)),
           l_temp = lerp t (temp (point_at p)) (temp (next_point p)),
           l_bt = lerp t (bt (point_at p)) (bt (next_point p)),
           l_bz = lerp t (bz (point_at p)) (bz (next_point p)),
           l_kp = lerp t (kp (point_at p)) (kp (next_point p))\<rparr>,
        xray_values = [xray (point_at p), lerp t (xray (point_at p)) (xray (next_point p))],
        c_currentTime = time (point_at p),
        c_progress =
          nearest (real_of_int (index p) / real_of_int (max 1 (int (length (timeline p)) - 1))),
        c_isLive = isLive p,
        totalPoints = length (timeline p),
        c_index = index p\<rparr>,
       p\<lparr>currentTime := time (point_at p),
          progress :=
            nearest (real_of_int (index p) / real_of_int (max 1 (int (length (timeline p)) - 1)))\<rparr>)"
proof -
  have i: "min (index p) (int (length (timeline p)) - 1) = index p" using assms by simp
  have n: "nat (min (index p + 1) (int (length (timeline p)) - 1)) =
           min (nat (index p) + 1) (length (timeline p) - 1)"
    using assms by (simp add: min_def) linarith
  show ?thesis
    using assms by (simp add: getCurrent_def Let_def i n point_at_def next_point_def)
qed

lemma point_fields:
  assumes "list_all (point_all P) xs" "k < length xs"
  shows "P (speed (xs ! k))" "P (density (xs ! k))" "P (temp (xs ! k))"
    "P (bt (xs ! k))" "P (bz (xs ! k))" "P (kp (xs ! k))" "P (xray (xs ! k))"
  using assms by (auto simp: list_all_length point_all_def)

text \<open>
  Claim C4. For a non-empty timeline whose numeric fields are finite doubles of a magnitude
  of at most \<open>2^1021\<close> and a cursor at any position of it, the last included: getCurrent
  returns a sample, never reading out of range. With fraction 0 every value is that of the
  point at the cursor, exactly. With fraction 1 every value is finite and within
  \<open>(|v1| + |v2|) / 2^50 + 2^-1073\<close> of the value \<open>v2\<close> of the next point, \<open>v1\<close>
  being the value at the cursor; with fraction 0.5 every interpolated value is finite and
  within the same distance of the arithmetic midpoint of \<open>v1\<close> and \<open>v2\<close>. The next
  point is the point at the following index, or the point at the cursor itself when the
  cursor is at the last index; there every value is that of the point at the cursor,
  exactly, with fraction 1 and with fraction 0.5 as well.
\<close>

theorem getCurrent_interpolation:
  assumes "timeline p \<noteq> []" and "0 \<le> index p" and "index p < int (length (timeline p))"
    and "list_all (point_all is_double) (timeline p)"
    and "list_all (point_all moderate) (timeline p)"
  shows
    "(case getCurrent p (Fin 0) of
        Inr (Some c, p') \<Rightarrow>
          latest c = raw_latest (point_at p) \<and>
          xray_values c = [xray (point_at p), xray (point_at p)]
      | _ \<Rightarrow> False) \<and>
     (case getCurrent p (Fin 1) of
        Inr (Some c, p') \<Rightarrow>
          near_latest (point_at p) (next_point p) (latest c) (raw_latest (next_point p)) \<and>
          length (xray_values c) = 2 \<and> xray_values c ! 0 = xray (point_at p) \<and>
          near (xray (point_at p)) (xray (next_point p)) (xray_values c ! 1)
            (xray (next_point p))
      | _ \<Rightarrow> False) \<and>
     (case getCurrent p (Fin 0.5) of
        Inr (Some c, p') \<Rightarrow>
          near_latest (point_at p) (next_point p) (latest c)
            (mid_latest (point_at p) (next_point p)) \<and>
          length (xray_values c) = 2 \<and> xray_values c ! 0 = xray (point_at p) \<and>
          near (xray (point_at p)) (xray (next_point p)) (xray_values c ! 1)
            (midpoint (xray (point_at p)) (xray (next_point p)))
      | _ \<Rightarrow> False) \<and>
     (index p + 1 < int (length (timeline p)) \<longrightarrow>
        next_point p = timeline p ! (nat (index p) + 1)) \<and>
     (index p = int (length (timeline p)) - 1 \<longrightarrow>
        next_point p = point_at p \<and>
        (case getCurrent p (Fin 1) of
           Inr (Some c, p') \<Rightarrow>
             latest c = raw_latest (point_at p) \<and>
             xray_values c = [xray (point_at p), xray (point_at p)]
         | _ \<Rightarrow> False) \<and>
        (case getCurrent p (Fin 0.5) of
           Inr (Some c, p') \<Rightarrow>
             latest c = raw_latest (point_at p) \<and>
             xray_values c = [xray (point_at p), xray (point_at p)]
         | _ \<Rightarrow> False))"
proof -
  have ka: "nat (index p) < length (timeline p)" using assms by simp
  have kb: "min (nat (index p) + 1) (length (timeline p) - 1) < length (timeline p)"
    using assms by (cases "timeline p") auto
  note da = point_fields [OF assms(4) ka, folded point_at_def]
  note ma = point_fields [OF assms(5) ka, folded point_at_def]
  note mb = point_fields [OF assms(5) kb, folded next_point_def]
  note gc = getCurrent_in_range [OF assms(1-3)]
  have c0: "case getCurrent p (Fin 0) of
        Inr (Some c, p') \<Rightarrow>
          latest c = raw_latest (point_at p) \<and>
          xray_values c = [xray (point_at p), xray (point_at p)]
      | _ \<Rightarrow> False"
    by (simp add: gc lerp_0 da ma mb raw_latest_def)
  have c1: "case getCurrent p (Fin 1) of
        Inr (Some c, p') \<Rightarrow>
          near_latest (point_at p) (next_point p) (latest c) (raw_latest (next_point p)) \<and>
          length (xray_values c) = 2 \<and> xray_values c ! 0 = xray (point_at p) \<and>
          near (xray (point_at p)) (xray (next_point p)) (xray_values c ! 1)
            (xray (next_point p))
      | _ \<Rightarrow> False"
    by (simp add: gc lerp_1_near ma mb raw_latest_def near_latest_def)
  have ch: "case getCurrent p (Fin 0.5) of
        Inr (Some c, p') \<Rightarrow>
          near_latest (point_at p) (next_point p) (latest c)
            (mid_latest (point_at p) (next_point p)) \<and>
          length (xray_values c) = 2 \<and> xray_values c ! 0 = xray (point_at p) \<and>
          near (xray (point_at p)) (xray (next_point p)) (xray_values c ! 1)
            (midpoint (xray (point_at p)) (xray (next_point p)))
      | _ \<Rightarrow> False"
    by (simp add: gc lerp_half_near ma mb mid_latest_def near_latest_def)
  have n1: "index p + 1 < int (length (timeline p)) \<longrightarrow>
        next_point p = timeline p ! (nat (index p) + 1)"
    using assms by (auto simp: next_point_def min_def)
  have "index p = int (length (timeline p)) - 1 \<longrightarrow> next_point p = point_at p"
    using assms by (auto simp: next_point_def point_at_def min_def nat_diff_distrib)
  then have n2: "next_point p = point_at p" if "index p = int (length (timeline p)) - 1"
    using that by simp
  have last: "case getCurrent p (Fin t) of
           Inr (Some c, p') \<Rightarrow>
             latest c = raw_latest (point_at p) \<and>
             xray_values c = [xray (point_at p), xray (point_at p)]
         | _ \<Rightarrow> False" if "index p = int (length (timeline p)) - 1" for t
    by (simp add: gc n2 [OF that] lerp_same da raw_latest_def)
  have n3: "index p = int (length (timeline p)) - 1 \<longrightarrow>
        next_point p = point_at p \<and>
        (case getCurrent p (Fin 1) of
           Inr (Some c, p') \<Rightarrow>
             latest c = raw_latest (point_at p) \<and>
             xray_values c = [xray (point_at p), xray (point_at p)]
         | _ \<Rightarrow> False) \<and>
        (case getCurrent p (Fin 0.5) of
           Inr (Some c, p') \<Rightarrow>
             latest c = raw_latest (point_at p) \<and>
             xray_values c = [xray (point_at p), xray (point_at p)]
         | _ \<Rightarrow> False)"
    using n2 last [of 1] last [of "0.5"] by (intro impI conjI)
  show ?thesis by (intro conjI c0 c1 ch n1 n3)
qed

text \<open>
  Two consecutive points across a shock front, with the doubles that the readings parse to,
  and a player on them.
\<close>

definition front_a :: TelemetryPoint where
  "front_a =
     \<lparr>time = ''2025-02-01 00:00:00.000'', speed = literal 837.8, density = literal 5,
      temp = literal 100000, bt = literal 5, bz = literal 2.1, bx = literal 0,
      by_gsm = literal 0, kp = literal 2, xray = literal 0.0000001\<rparr>"

definition front_b :: TelemetryPoint where
  "front_b =
     \<lparr>time = ''2025-02-01 00:01:00.000'', speed = literal 291.2, density = literal 5,
      temp = literal 100000, bt = literal 5, bz = literal (- 0.7), bx = literal 0,
      by_gsm = literal 0, kp = literal 2, xray = literal 0.0000001\<rparr>"

definition front_player :: TimelinePlayer where
  "front_player =
     \<lparr>timeline = [front_a, front_b], index = 0, isLive = True, loading = False, error = None,
      currentTime = [], progress = 0, paused = False\<rparr>"

lemma front_fields:
  "list_all (point_all is_double) [front_a, front_b]"
  "list_all (point_all moderate) [front_a, front_b]"
  by (simp_all add: front_a_def front_b_def point_all_def literal_ok)

lemma case_current_mono:
  assumes "case r of Inr (Some c, p') \<Rightarrow> P c | _ \<Rightarrow> False"
    and "\<And>c. P c \<Longrightarrow> Q c"
  shows "case r of Inr (Some c, p') \<Rightarrow> Q c | _ \<Rightarrow> False"
  using assms by (auto split: sum.splits option.splits prod.splits)

theorem getCurrent_interpolation_witness:
  "(case getCurrent front_player (Fin 0) of
      Inr (Some c, p') \<Rightarrow>
        l_speed (latest c) = literal 837.8 \<and> l_bz (latest c) = literal 2.1 \<and>
        xray_values c = [literal 0.0000001, literal 0.0000001]
    | _ \<Rightarrow> False) \<and>
   (case getCurrent front_player (Fin 1) of
      Inr (Some c, p') \<Rightarrow>
        near (literal 837.8) (literal 291.2) (l_speed (latest c)) (literal 291.2)
    | _ \<Rightarrow> False) \<and>
   (case getCurrent front_player (Fin 0.5) of
      Inr (Some c, p') \<Rightarrow>
        near (literal 2.1) (literal (- 0.7)) (l_bz (latest c))
          (midpoint (literal 2.1) (literal (- 0.7)))
    | _ \<Rightarrow> False) \<and>
   (case getCurrent (front_player\<lparr>index := 1\<rparr>) (Fin 1) of
      Inr (Some c, p') \<Rightarrow> l_speed (latest c) = literal 291.2
    | _ \<Rightarrow> False) \<and>
   (case getCurrent (front_player\<lparr>index := 1\<rparr>) (Fin 0.5) of
      Inr (Some c, p') \<Rightarrow> l_bz (latest c) = literal (- 0.7)
    | _ \<Rightarrow> False)"
proof -
  have h0: "timeline front_player \<noteq> []" "0 \<le> index front_player"
    "index front_player < int (length (timeline front_player))"
    "list_all (point_all is_double) (timeline front_player)"
    "list_all (point_all moderate) (timeline front_player)"
    using front_fields by (simp_all add: front_player_def)
  have h1: "timeline (front_player\<lparr>index := 1\<rparr>) \<noteq> []"
    "0 \<le> index (front_player\<lparr>index := 1\<rparr>)"
    "index (front_player\<lparr>index := 1\<rparr>) < int (length (timeline (front_player\<lparr>index := 1\<rparr>)))"
    "list_all (point_all is_double) (timeline (front_player\<lparr>index := 1\<rparr>))"
    "list_all (point_all moderate) (timeline (front_player\<lparr>index := 1\<rparr>))"
    using front_fields by (simp_all add: front_player_def)
  have n0: "point_at front_player = front_a" "next_point front_player = front_b"
    by (simp_all add: point_at_def next_point_def front_player_def)
  have n1: "point_at (front_player\<lparr>index := 1\<rparr>) = front_b"
    by (simp add: point_at_def front_player_def)
  have at_last: "index (front_player\<lparr>index := 1\<rparr>) =
      int (length (timeline (front_player\<lparr>index := 1\<rparr>))) - 1"
    by (simp add: front_player_def)
  note first = getCurrent_interpolation [OF h0, unfolded n0]
  note last =
    getCurrent_interpolation [OF h1, THEN conjunct2, THEN conjunct2, THEN conjunct2,
      THEN conjunct2, rule_format, OF at_last, unfolded n1]
  have a: "case getCurrent front_player (Fin 0) of
      Inr (Some c, p') \<Rightarrow>
        l_speed (latest c) = literal 837.8 \<and> l_bz (latest c) = literal 2.1 \<and>
        xray_values c = [literal 0.0000001, literal 0.0000001]
    | _ \<Rightarrow> False"
    by (rule case_current_mono [OF first [THEN conjunct1]])
      (simp add: raw_latest_def front_a_def)
  have b: "case getCurrent front_player (Fin 1) of
      Inr (Some c, p') \<Rightarrow>
        near (literal 837.8) (literal 291.2) (l_speed (latest c)) (literal 291.2)
    | _ \<Rightarrow> False"
    by (rule case_current_mono [OF first [THEN conjunct2, THEN conjunct1]])
      (simp add: near_latest_def raw_latest_def front_a_def front_b_def)
  have c: "case getCurrent front_player (Fin 0.5) of
      Inr (Some c, p') \<Rightarrow>
        near (literal 2.1) (literal (- 0.7)) (l_bz (latest c))
          (midpoint (literal 2.1) (literal (- 0.7)))
    | _ \<Rightarrow> False"
    by (rule case_current_mono [OF first [THEN conjunct2, THEN conjunct2, THEN conjunct1]])
      (simp add: near_latest_def mid_latest_def front_a_def front_b_def)
  have d: "case getCurrent (front_player\<lparr>index := 1\<rparr>) (Fin 1) of
      Inr (Some c, p') \<Rightarrow> l_speed (latest c) = literal 291.2
    | _ \<Rightarrow> False"
    by (rule case_current_mono [OF last [THEN conjunct2, THEN conjunct1]])
      (simp add: raw_latest_def front_b_def)
  have e: "case getCurrent (front_player\<lparr>index := 1\<rparr>) (Fin 0.5) of
      Inr (Some c, p') \<Rightarrow> l_bz (latest c) = literal (- 0.7)
    | _ \<Rightarrow> False"
    by (rule case_current_mono [OF last [THEN conjunct2, THEN conjunct2]])
      (simp add: raw_latest_def front_b_def)
  show ?thesis by (intro conjI a b c d e)
qed

text \<open>
  The values of the front, and the interpolation between them, one rounding at a time.
\<close>

lemma literal_837_8: "literal 837.8 = Fin (3684683367002931 / 4398046511104)"
  unfolding literal_def round64.simps
  by (subst to_double_eval [of 9]) (simp_all add: round_half_even_def Let_def)

lemma literal_291_2: "literal 291.2 = Fin (5122844576133939 / 17592186044416)"
  unfolding literal_def round64.simps
  by (subst to_double_eval [of 8]) (simp_all add: round_half_even_def Let_def)

lemma literal_2_1: "literal 2.1 = Fin (4728779608739021 / 2251799813685248)"
  unfolding literal_def round64.simps
  by (subst to_double_eval [of 1]) (simp_all add: round_half_even_def Let_def)

lemma literal_m0_7: "literal (- 0.7) = Fin (- (3152519739159347 / 4503599627370496))"
  unfolding literal_def round64.simps
  by (subst to_double_eval [of "-1"]) (simp_all add: round_half_even_def Let_def)

lemma front_speed_at_1: "lerp (Fin 1) (literal 837.8) (literal 291.2) =
    Fin (1280711144033485 / 4398046511104)"
proof -
  have d: "to_double (- (9615888891877785 / 17592186044416)) =
          Fin (- (1201986111484723 / 2199023255552))"
    by (subst to_double_eval [of 9]) (simp_all add: round_half_even_def Let_def)
  have m: "to_double (- (1201986111484723 / 2199023255552)) =
          Fin (- (1201986111484723 / 2199023255552))"
    by (subst to_double_eval [of 9]) (simp_all add: round_half_even_def Let_def)
  have r: "to_double (1280711144033485 / 4398046511104) = Fin (1280711144033485 / 4398046511104)"
    by (subst to_double_eval [of 8]) (simp_all add: round_half_even_def Let_def)
  show ?thesis unfolding literal_837_8 literal_291_2 by (simp add: lerp_def num_sub_def d m r)
qed

lemma front_bz_at_1: "lerp (Fin 1) (literal 2.1) (literal (- 0.7)) =
    Fin (- (1576259869579673 / 2251799813685248))"
proof -
  have d: "to_double (- (12610078956637389 / 4503599627370496)) =
          Fin (- (3152519739159347 / 1125899906842624))"
    by (subst to_double_eval [of 1]) (simp_all add: round_half_even_def Let_def)
  have m: "to_double (- (3152519739159347 / 1125899906842624)) =
          Fin (- (3152519739159347 / 1125899906842624))"
    by (subst to_double_eval [of 1]) (simp_all add: round_half_even_def Let_def)
  have r: "to_double (- (1576259869579673 / 2251799813685248)) =
          Fin (- (1576259869579673 / 2251799813685248))"
    by (subst to_double_eval [of "-1"]) (simp_all add: round_half_even_def Let_def)
  show ?thesis unfolding literal_2_1 literal_m0_7 by (simp add: lerp_def num_sub_def d m r)
qed

lemma front_bz_at_half: "lerp (Fin 0.5) (literal 2.1) (literal (- 0.7)) =
    Fin (788129934789837 / 1125899906842624)"
proof -
  have d: "to_double (- (12610078956637389 / 4503599627370496)) =
          Fin (- (3152519739159347 / 1125899906842624))"
    by (subst to_double_eval [of 1]) (simp_all add: round_half_even_def Let_def)
  have m: "to_double (- (3152519739159347 / 2251799813685248)) =
          Fin (- (3152519739159347 / 2251799813685248))"
    by (subst to_double_eval [of 0]) (simp_all add: round_half_even_def Let_def)
  have r: "to_double (788129934789837 / 1125899906842624) =
          Fin (788129934789837 / 1125899906842624)"
    by (subst to_double_eval [of "-1"]) (simp_all add: round_half_even_def Let_def)
  show ?thesis unfolding literal_2_1 literal_m0_7 by (simp add: lerp_def num_sub_def d m r)
qed

text \<open>The two largest powers of two among the doubles, of opposite signs.\<close>

definition wide_player :: TimelinePlayer where
  "wide_player =
     front_player\<lparr>timeline :=
       [front_a\<lparr>speed := Fin (2 ^ 1023)\<rparr>, front_b\<lparr>speed := Fin (- (2 ^ 1023))\<rparr>]\<rparr>"

lemma ulp_exponent_top:
  assumes "2 powi 1023 \<le> \<bar>x\<bar>"
  shows "ulp_exponent 2045 x = 971"
proof -
  have "(2::real) powi (int 2044 - 1021) = 2 powi 1023" by simp
  with assms have "2 powi (int 2044 - 1021) \<le> \<bar>x\<bar>" by simp
  then have "ulp_exponent (Suc 2044) x = int 2044 - 1073"
    by (simp only: ulp_exponent.simps if_True)
  then show ?thesis by simp
qed

lemma wide_is_double: "is_double (Fin (2 ^ 1023))" "is_double (Fin (- (2 ^ 1023)))"
proof -
  have n: "nearest (2 ^ 1023) = 2 ^ 1023" "nearest (- (2 ^ 1023)) = - (2 ^ 1023)"
    by (simp_all add: nearest_def Let_def ulp_exponent_top round_half_even_def)
  show "is_double (Fin (2 ^ 1023))" "is_double (Fin (- (2 ^ 1023)))"
    unfolding is_double.simps to_double_def Let_def n by simp_all
qed

lemma wide_difference: "to_double (- (2 ^ 1023) + - (2 ^ 1023)) = NInf"
proof -
  have "nearest (- (2 ^ 1023) + - (2 ^ 1023)) = - (2 ^ 1024)"
    by (simp add: nearest_def Let_def ulp_exponent_top round_half_even_def)
  then show ?thesis by (simp add: to_double_def Let_def)
qed

lemma wide_speed_at_0: "lerp (Fin 0) (Fin (2 ^ 1023)) (Fin (- (2 ^ 1023))) = NaN"
  unfolding lerp_def num_sub_def num_neg.simps num_add.simps round64.simps wide_difference
  by simp

text \<open>
  The claim as it is worded fails on doubles. On the front, with fraction 1 the speed
  returned is 291.20000000000005 (the double above 291.2) and the bz returned is
  -0.6999999999999997, neither the value of the next point; with fraction 0.5 the bz
  returned is 0.7000000000000002, where the arithmetic midpoint of the two values is the
  double 0.7000000000000001. With fraction 0 and two finite speeds whose difference
  overflows, the speed returned is NaN: the difference is an infinity, and an infinity
  times 0 is NaN.
\<close>

theorem getCurrent_interpolation_counterexample:
  "list_all (point_all is_double) (timeline front_player) \<and>
   (case getCurrent front_player (Fin 1) of
      Inr (Some c, p') \<Rightarrow>
        l_speed (latest c) = Fin (1280711144033485 / 4398046511104) \<and>
        speed (next_point front_player) = Fin (5122844576133939 / 17592186044416) \<and>
        l_speed (latest c) \<noteq> speed (next_point front_player) \<and>
        l_bz (latest c) = Fin (- (1576259869579673 / 2251799813685248)) \<and>
        bz (next_point front_player) = Fin (- (3152519739159347 / 4503599627370496)) \<and>
        l_bz (latest c) \<noteq> bz (next_point front_player)
    | _ \<Rightarrow> False) \<and>
   (case getCurrent front_player (Fin 0.5) of
      Inr (Some c, p') \<Rightarrow>
        l_bz (latest c) = Fin (788129934789837 / 1125899906842624) \<and>
        midpoint (bz (point_at front_player)) (bz (next_point front_player)) =
          Fin (6305039478318695 / 9007199254740992) \<and>
        is_double (midpoint (bz (point_at front_player)) (bz (next_point front_player))) \<and>
        l_bz (latest c) \<noteq> midpoint (bz (point_at front_player)) (bz (next_point front_player))
    | _ \<Rightarrow> False) \<and>
   list_all (point_all is_double) (timeline wide_player) \<and>
   (case getCurrent wide_player (Fin 0) of
      Inr (Some c, p') \<Rightarrow>
        speed (point_at wide_player) = Fin (2 ^ 1023) \<and>
        speed (next_point wide_player) = Fin (- (2 ^ 1023)) \<and>
        l_speed (latest c) = NaN
    | _ \<Rightarrow> False)"
proof -
  have f: "timeline front_player \<noteq> []" "0 \<le> index front_player"
    "index front_player < int (length (timeline front_player))"
    by (simp_all add: front_player_def)
  have w: "timeline wide_player \<noteq> []" "0 \<le> index wide_player"
    "index wide_player < int (length (timeline wide_player))"
    by (simp_all add: wide_player_def front_player_def)
  have nf: "point_at front_player = front_a" "next_point front_player = front_b"
    by (simp_all add: point_at_def next_point_def front_player_def)
  have nw: "point_at wide_player = front_a\<lparr>speed := Fin (2 ^ 1023)\<rparr>"
    "next_point wide_player = front_b\<lparr>speed := Fin (- (2 ^ 1023))\<rparr>"
    by (simp_all add: point_at_def next_point_def wide_player_def front_player_def)
  have m: "to_double (6305039478318695 / 9007199254740992) =
      Fin (6305039478318695 / 9007199254740992)"
    by (subst to_double_eval [of "-1"]) (simp_all add: round_half_even_def Let_def)
  have sa: "speed front_a = literal 837.8" "bz front_a = literal 2.1"
    and sb: "speed front_b = literal 291.2" "bz front_b = literal (- 0.7)"
    by (simp_all add: front_a_def front_b_def)
  have 1: "list_all (point_all is_double) (timeline front_player)"
    using front_fields by (simp add: front_player_def)
  have 2: "case getCurrent front_player (Fin 1) of
      Inr (Some c, p') \<Rightarrow>
        l_speed (latest c) = Fin (1280711144033485 / 4398046511104) \<and>
        speed (next_point front_player) = Fin (5122844576133939 / 17592186044416) \<and>
        l_speed (latest c) \<noteq> speed (next_point front_player) \<and>
        l_bz (latest c) = Fin (- (1576259869579673 / 2251799813685248)) \<and>
        bz (next_point front_player) = Fin (- (3152519739159347 / 4503599627370496)) \<and>
        l_bz (latest c) \<noteq> bz (next_point front_player)
    | _ \<Rightarrow> False"
    unfolding getCurrent_in_range [OF f] nf sa sb front_speed_at_1 front_bz_at_1
    unfolding literal_291_2 literal_m0_7
    by simp
  have 3: "case getCurrent front_player (Fin 0.5) of
      Inr (Some c, p') \<Rightarrow>
        l_bz (latest c) = Fin (788129934789837 / 1125899906842624) \<and>
        midpoint (bz (point_at front_player)) (bz (next_point front_player)) =
          Fin (6305039478318695 / 9007199254740992) \<and>
        is_double (midpoint (bz (point_at front_player)) (bz (next_point front_player))) \<and>
        l_bz (latest c) \<noteq> midpoint (bz (point_at front_player)) (bz (next_point front_player))
    | _ \<Rightarrow> False"
    using m
    unfolding getCurrent_in_range [OF f] nf sa sb front_bz_at_half
    unfolding literal_2_1 literal_m0_7
    by simp
  have 4: "list_all (point_all is_double) (timeline wide_player)"
    using front_fields(1) wide_is_double
    by (simp add: wide_player_def front_player_def point_all_def)
  have 5: "case getCurrent wide_player (Fin 0) of
      Inr (Some c, p') \<Rightarrow>
        speed (point_at wide_player) = Fin (2 ^ 1023) \<and>
        speed (next_point wide_player) = Fin (- (2 ^ 1023)) \<and>
        l_speed (latest c) = NaN
    | _ \<Rightarrow> False"
    using wide_speed_at_0 unfolding getCurrent_in_range [OF w] nw by simp
  show ?thesis by (intro conjI 1 2 3 4 5)
qed

subsection \<open>advance and togglePause\<close>

definition ex_player :: TimelinePlayer where
  "ex_player =
     \<lparr>timeline = ex_timeline, index = 0, isLive = True, loading = False, error = None,
      currentTime = [], progress = 0, paused = False\<rparr>"

lemma advance_paused: "paused p \<Longrightarrow> advance p = (False, p)"
  by (simp add: advance_def)

lemma advance_n_paused: "paused p \<Longrightarrow> advance_n n p = (replicate n False, p)"
  by (induction n) (simp_all add: advance_paused)

lemma advance_inside:
  "\<not> paused p \<Longrightarrow> index p + 1 < int (length (timeline p)) - 1 \<Longrightarrow>
   advance p = (False, p\<lparr>index := index p + 1\<rparr>)"
  by (simp add: advance_def Let_def)

lemma advance_wrap:
  "\<not> paused p \<Longrightarrow> int (length (timeline p)) - 1 \<le> index p + 1 \<Longrightarrow>
   advance p = (True, p\<lparr>index := 0\<rparr>)"
  by (simp add: advance_def Let_def)

lemma advance_n_inside:
  "\<not> paused p \<Longrightarrow> index p + int n < int (length (timeline p)) - 1 \<Longrightarrow>
   advance_n n p = (replicate n False, p\<lparr>index := index p + int n\<rparr>)"
proof (induction n arbitrary: p)
  case 0
  then show ?case by simp
next
  case (Suc n)
  from Suc.prems have step: "advance p = (False, p\<lparr>index := index p + 1\<rparr>)"
    by (intro advance_inside) simp_all
  from Suc.prems have
    "advance_n n (p\<lparr>index := index p + 1\<rparr>) =
       (replicate n False, p\<lparr>index := index p + 1\<rparr>\<lparr>index := index (p\<lparr>index := index p + 1\<rparr>) + int n\<rparr>)"
    by (intro Suc.IH) simp_all
  with step show ?case by (simp add: add.assoc)
qed

lemma advance_n_append:
  "advance_n (m + n) p =
     (fst (advance_n m p) @ fst (advance_n n (snd (advance_n m p))),
      snd (advance_n n (snd (advance_n m p))))"
  by (induction m arbitrary: p) (auto split: prod.splits)

text \<open>
  Claim C5. With a timeline of \<open>n \<ge> 2\<close> points, the index at 0 and the player not
  paused, \<open>n - 1\<close> calls of advance return the signal exactly once, on the last call,
  and leave the index at 0 (nothing else of the player changes).
\<close>

theorem advance_window_exhausted:
  assumes "2 \<le> length (timeline p)" and "index p = 0" and "\<not> paused p"
  shows "advance_n (length (timeline p) - 1) p =
           (replicate (length (timeline p) - 2) False @ [True], p)"
proof -
  let ?n = "length (timeline p)"
  have in1: "advance_n (?n - 2) p = (replicate (?n - 2) False, p\<lparr>index := int (?n - 2)\<rparr>)"
    using assms advance_n_inside [of p "?n - 2"] by simp
  have last: "advance (p\<lparr>index := int (?n - 2)\<rparr>) = (True, p\<lparr>index := 0\<rparr>)"
    using assms advance_wrap [of "p\<lparr>index := int (?n - 2)\<rparr>"] by simp
  have "?n - 1 = (?n - 2) + 1" using assms(1) by simp
  then have "advance_n (?n - 1) p = advance_n ((?n - 2) + 1) p" by simp
  also have "\<dots> = (replicate (?n - 2) False @ [True], p\<lparr>index := 0\<rparr>)"
    by (simp only: advance_n_append in1) (simp add: last)
  also have "p\<lparr>index := 0\<rparr> = p" using assms(2) by simp
  finally show ?thesis .
qed

theorem advance_window_exhausted_witness:
  "advance_n 2 ex_player = ([False, True], ex_player)"
proof -
  have "2 \<le> length (timeline ex_player)" "index ex_player = 0" "\<not> paused ex_player"
    by (simp_all add: ex_player_def ex_timeline_def)
  from advance_window_exhausted [OF this] show ?thesis
    by (simp add: ex_player_def ex_timeline_def numeral_2_eq_2)
qed

text \<open>
  Claim C6. With a timeline of 5000 points, a player that is playing (as the constructor
  leaves it) and the cursor at an index \<open>i\<close> with \<open>i + 50 < length - 1\<close>: togglePause
  returns true, the 50 calls of advance that follow return no signal and leave the index at
  \<open>i\<close>; the second togglePause returns false, and the 50 further calls of advance return
  no signal and leave the index at \<open>i + 50\<close>.
\<close>

theorem pause_scenario:
  assumes "length (timeline p) = 5000" and "\<not> paused p"
    and "0 \<le> index p" and "index p + 50 < int (length (timeline p)) - 1"
  shows
    "fst (togglePause p) = True \<and>
     fst (advance_n 50 (snd (togglePause p))) = replicate 50 False \<and>
     index (snd (advance_n 50 (snd (togglePause p)))) = index p \<and>
     fst (togglePause (snd (advance_n 50 (snd (togglePause p))))) = False \<and>
     fst (advance_n 50 (snd (togglePause (snd (advance_n 50 (snd (togglePause p))))))) =
       replicate 50 False \<and>
     index (snd (advance_n 50 (snd (togglePause (snd (advance_n 50 (snd (togglePause p))))))))
       = index p + 50"
proof -
  have t1: "togglePause p = (True, p\<lparr>paused := True\<rparr>)"
    using assms(2) by (simp add: togglePause_def)
  have a1: "advance_n 50 (p\<lparr>paused := True\<rparr>) = (replicate 50 False, p\<lparr>paused := True\<rparr>)"
    by (rule advance_n_paused) simp
  have t2: "togglePause (p\<lparr>paused := True\<rparr>) = (False, p\<lparr>paused := False\<rparr>)"
    by (simp add: togglePause_def)
  have a2: "advance_n 50 (p\<lparr>paused := False\<rparr>) =
      (replicate 50 False, p\<lparr>paused := False\<rparr>\<lparr>index := index (p\<lparr>paused := False\<rparr>) + int 50\<rparr>)"
    using assms by (intro advance_n_inside) simp_all
  show ?thesis by (simp add: t1 a1 t2 a2)
qed

definition long_player :: TimelinePlayer where
  "long_player =
     \<lparr>timeline = replicate 5000 (ex_timeline ! 0), index = 100, isLive = False, loading = False,
      error = None, currentTime = [], progress = 0, paused = False\<rparr>"

theorem pause_scenario_witness:
  "index (snd (advance_n 50 (snd (togglePause long_player)))) = 100 \<and>
   index (snd (advance_n 50 (snd (togglePause (snd (advance_n 50 (snd (togglePause long_player)))))))) = 150 \<and>
   fst (advance_n 50 (snd (togglePause (snd (advance_n 50 (snd (togglePause long_player))))))) =
     replicate 50 False"
proof -
  have "length (timeline long_player) = 5000" "\<not> paused long_player" "0 \<le> index long_player"
    "index long_player + 50 < int (length (timeline long_player)) - 1"
    by (simp_all add: long_player_def)
  from pause_scenario [OF this] show ?thesis by (simp add: long_player_def)
qed

section \<open>Smoothed State and the trail pass\<close>

subsection \<open>Comparison, minimum, maximum and division of numbers\<close>

text \<open>The comparison \<^verbatim>\<open>x < y\<close>: false whenever an operand is NaN.\<close>

fun num_lt :: "num \<Rightarrow> num \<Rightarrow> bool" where
  "num_lt (Fin a) (Fin b) = (a < b)"
| "num_lt NaN y = False"
| "num_lt x NaN = False"
| "num_lt x NInf = False"
| "num_lt NInf y = True"
| "num_lt PInf y = False"
| "num_lt x PInf = True"

text \<open>\<^verbatim>\<open>Math.min\<close> and \<^verbatim>\<open>Math.max\<close>: NaN when an argument is NaN.\<close>

definition num_min :: "num \<Rightarrow> num \<Rightarrow> num" where
  "num_min x y = (if x = NaN \<or> y = NaN then NaN else if num_lt y x then y else x)"

definition num_max :: "num \<Rightarrow> num \<Rightarrow> num" where
  "num_max x y = (if x = NaN \<or> y = NaN then NaN else if num_lt x y then y else x)"

text \<open>Division; a zero divisor counts as positive zero.\<close>

fun num_div :: "num \<Rightarrow> num \<Rightarrow> num" where
  "num_div (Fin a) (Fin b) =
     (if b = 0 then (if a = 0 then NaN else if 0 < a then PInf else NInf) else Fin (a / b))"
| "num_div NaN y = NaN"
| "num_div x NaN = NaN"
| "num_div (Fin a) y = Fin 0"
| "num_div x (Fin b) =
     (if 0 \<le> num_sgn x * (if 0 \<le> b then 1 else - 1) then PInf else NInf)"
| "num_div x y = NaN"

subsection \<open>Normalized telemetry\<close>

text \<open>
  Lines 738-742 of animate and lines 321-325 of SonEngine.update normalize the record in the
  same way: \<^verbatim>\<open>Math.min(1, (l.speed || 400) / 900)\<close> and so on; only bz is clamped
  from below as well.
\<close>

definition norm_speed :: "Latest \<Rightarrow> num" where
  "norm_speed l = num_min (Fin 1) (num_div (num_or (l_speed l) (Fin 400)) (Fin 900))"

definition norm_density :: "Latest \<Rightarrow> num" where
  "norm_density l = num_min (Fin 1) (num_div (num_or (l_density l) (Fin 5)) (Fin 20))"

definition norm_bz :: "Latest \<Rightarrow> num" where
  "norm_bz l =
     num_max (Fin (- 1)) (num_min (Fin 1) (num_div (num_or (l_bz l) (Fin 0)) (Fin 15)))"

definition norm_bt :: "Latest \<Rightarrow> num" where
  "norm_bt l = num_min (Fin 1) (num_div (num_or (l_bt l) (Fin 5)) (Fin 25))"

definition norm_kp :: "Latest \<Rightarrow> num" where
  "norm_kp l = num_min (Fin 1) (num_div (num_or (l_kp l) (Fin 2)) (Fin 9))"

subsection \<open>The smoothing of animate\<close>

text \<open>The object \<^verbatim>\<open>sm\<close> of line 719.\<close>

record Smooth =
  sm_speed :: num
  sm_density :: num
  sm_bz :: num
  sm_bt :: num
  sm_kp :: num

definition sm_init :: Smooth where
  "sm_init =
     \<lparr>sm_speed = Fin 0.5, sm_density = Fin 0.5, sm_bz = Fin 0, sm_bt = Fin 0.3,
      sm_kp = Fin 0.3\<rparr>"

text \<open>\<^verbatim>\<open>s += (target - s) * 0.015\<close>.\<close>

definition toward :: "num \<Rightarrow> num \<Rightarrow> num" where
  "toward s target = num_add s (num_mul (num_sub target s) (Fin 0.015))"

text \<open>Lines 738-742.\<close>

definition smooth_step :: "Smooth \<Rightarrow> Latest \<Rightarrow> Smooth" where
  "smooth_step sm l =
     \<lparr>sm_speed = toward (sm_speed sm) (norm_speed l),
      sm_density = toward (sm_density sm) (norm_density l),
      sm_bz = toward (sm_bz sm) (norm_bz l),
      sm_bt = toward (sm_bt sm) (norm_bt l),
      sm_kp = toward (sm_kp sm) (norm_kp l)\<rparr>"

text \<open>Line 744.\<close>

definition intensity_of :: "Smooth \<Rightarrow> num" where
  "intensity_of sm =
     num_max (Fin 0.15)
       (num_div (num_add (num_add (sm_kp sm) (sm_bt sm)) (num_max (Fin 0) (num_neg (sm_bz sm))))
          (Fin 2.5))"

text \<open>
  Lines 734-744: one render tick, as far as the smoothed state goes. With no snapshot yet
  (\<^verbatim>\<open>dataRef.current\<close> is null) the tick returns before it touches \<^verbatim>\<open>sm\<close>.
\<close>

definition animate_tick :: "Smooth \<Rightarrow> Current option \<Rightarrow> Smooth" where
  "animate_tick sm d = (case d of None \<Rightarrow> sm | Some c \<Rightarrow> smooth_step sm (latest c))"

subsection \<open>The trail pass\<close>

text \<open>
  A texel is a vec4; a render target is the list of its texels. The channels are reals here:
  the claim is about the algebra of the blend, not about the half floats of the GPU.
\<close>

type_synonym vec4 = "real \<times> real \<times> real \<times> real"

fun vec4_scale :: "vec4 \<Rightarrow> real \<Rightarrow> vec4" where
  "vec4_scale (r, g, b, a) k = (r * k, g * k, b * k, a * k)"

fun vec4_max :: "vec4 \<Rightarrow> vec4 \<Rightarrow> vec4" where
  "vec4_max (r, g, b, a) (r', g', b', a') = (max r r', max g g', max b b', max a a')"

text \<open>The channel \<open>k\<close> of a texel, for \<open>k\<close> from 0 to 3.\<close>

fun channel :: "nat \<Rightarrow> vec4 \<Rightarrow> real" where
  "channel k (r, g, b, a) = (if k = 0 then r else if k = 1 then g else if k = 2 then b else a)"

text \<open>Lines 531-536: the fragment shader of trailMat, at one texel.\<close>

definition trail_fragment :: "real \<Rightarrow> vec4 \<Rightarrow> vec4 \<Rightarrow> vec4" where
  "trail_fragment uFade newTexel prevTexel =
     (let newCol = newTexel;
          prevCol = vec4_scale prevTexel uFade
      in vec4_max newCol prevCol)"

text \<open>Line 841: the fade factor, for a finite intensity.\<close>

definition uFade_of :: "real \<Rightarrow> real" where
  "uFade_of intensity_value = 0.75 + intensity_value * 0.08"

text \<open>The two ping-pong targets (line 512).\<close>

record Trail =
  trailRead :: "vec4 list"
  trailWrite :: "vec4 list"

text \<open>
  Lines 838-852: the trail pass renders the blend of the scene target and of trailRead into
  trailWrite, then the two targets are swapped.
\<close>

definition trail_tick :: "real \<Rightarrow> vec4 list \<Rightarrow> Trail \<Rightarrow> Trail" where
  "trail_tick uFade sceneRT st =
     (let rendered = map2 (trail_fragment uFade) sceneRT (trailRead st);
          st' = st\<lparr>trailWrite := rendered\<rparr>
      in \<lparr>trailRead = trailWrite st', trailWrite = trailRead st'\<rparr>)"

text \<open>
  \<open>n\<close> ticks on a scene target that stays black, the tick \<open>k\<close> with the intensity
  \<open>I k\<close>.
\<close>

definition black :: "nat \<Rightarrow> vec4 list" where
  "black n = replicate n (0, 0, 0, 0)"

primrec trail_after :: "(nat \<Rightarrow> real) \<Rightarrow> Trail \<Rightarrow> nat \<Rightarrow> Trail" where
  "trail_after I st 0 = st"
| "trail_after I st (Suc n) =
     trail_tick (uFade_of (I n)) (black (length (trailRead st))) (trail_after I st n)"

section \<open>Properties of the Smoothed State and of the trail pass\<close>

text \<open>
  Bounds on a number, false of NaN and of the infinities; the bounds of the smoothed state,
  from both sides and from above only; a record whose five smoothed inputs are finite, and
  one whose four magnitudes (speed, density, bt, kp) are not negative; and a predicate on
  the record of a tick, true of a tick without a snapshot.
\<close>

definition in_range :: "real \<Rightarrow> real \<Rightarrow> num \<Rightarrow> bool" where
  "in_range lo hi n = (case n of Fin r \<Rightarrow> lo \<le> r \<and> r \<le> hi | _ \<Rightarrow> False)"

definition at_most :: "real \<Rightarrow> num \<Rightarrow> bool" where
  "at_most hi n = (case n of Fin r \<Rightarrow> r \<le> hi | _ \<Rightarrow> False)"

definition at_least :: "real \<Rightarrow> num \<Rightarrow> bool" where
  "at_least lo n = (case n of Fin r \<Rightarrow> lo \<le> r | _ \<Rightarrow> False)"

definition smooth_in_bounds :: "Smooth \<Rightarrow> bool" where
  "smooth_in_bounds sm =
     (in_range 0 1 (sm_speed sm) \<and> in_range 0 1 (sm_density sm) \<and>
      in_range (- 1) 1 (sm_bz sm) \<and> in_range 0 1 (sm_bt sm) \<and> in_range 0 1 (sm_kp sm))"

definition smooth_upper :: "Smooth \<Rightarrow> bool" where
  "smooth_upper sm =
     (at_most 1 (sm_speed sm) \<and> at_most 1 (sm_density sm) \<and>
      in_range (- 1) 1 (sm_bz sm) \<and> at_most 1 (sm_bt sm) \<and> at_most 1 (sm_kp sm))"

definition finite_latest :: "Latest \<Rightarrow> bool" where
  "finite_latest l =
     (is_fin (l_speed l) \<and> is_fin (l_density l) \<and> is_fin (l_bz l) \<and> is_fin (l_bt l) \<and>
      is_fin (l_kp l))"

definition nonneg_latest :: "Latest \<Rightarrow> bool" where
  "nonneg_latest l =
     (at_least 0 (l_speed l) \<and> at_least 0 (l_density l) \<and> at_least 0 (l_bt l) \<and>
      at_least 0 (l_kp l))"

definition tick_ok :: "(Latest \<Rightarrow> bool) \<Rightarrow> Current option \<Rightarrow> bool" where
  "tick_ok P d = (case d of None \<Rightarrow> True | Some c \<Rightarrow> P (latest c))"

lemma range_Fin [simp]:
  "in_range lo hi (Fin r) \<longleftrightarrow> lo \<le> r \<and> r \<le> hi"
  "at_most hi (Fin r) \<longleftrightarrow> r \<le> hi"
  "at_least lo (Fin r) \<longleftrightarrow> lo \<le> r"
  by (simp_all add: in_range_def at_most_def at_least_def)

lemma range_not_Fin [simp]:
  "\<not> in_range lo hi PInf" "\<not> in_range lo hi NInf" "\<not> in_range lo hi NaN"
  "\<not> at_most hi PInf" "\<not> at_most hi NInf" "\<not> at_most hi NaN"
  "\<not> at_least lo PInf" "\<not> at_least lo NInf" "\<not> at_least lo NaN"
  by (simp_all add: in_range_def at_most_def at_least_def)

lemma num_min_Fin [simp]: "num_min (Fin a) (Fin b) = Fin (min a b)"
  by (simp add: num_min_def min_def)

lemma num_max_Fin [simp]: "num_max (Fin a) (Fin b) = Fin (max a b)"
  by (simp add: num_max_def max_def)

lemma num_or_Fin [simp]: "num_or (Fin a) d = (if a = 0 then d else Fin a)"
  by (simp add: num_or_def)

lemma toward_Fin [simp]: "toward (Fin s) (Fin t) = Fin (s + (t - s) * 0.015)"
  by (simp add: toward_def num_sub_def)

lemma in_range_at_most: "in_range lo hi n \<Longrightarrow> at_most hi n"
  by (cases n) simp_all

text \<open>The normalized target of a magnitude: at most 1, and not negative when the input is not.\<close>

lemma norm_magnitude_upper:
  assumes "is_fin v" "0 < d" "0 < c"
  shows "at_most 1 (num_min (Fin 1) (num_div (num_or v (Fin d)) (Fin c)))"
  using assms by (cases v) simp_all

lemma norm_magnitude_range:
  assumes "at_least 0 v" "0 < d" "0 < c"
  shows "in_range 0 1 (num_min (Fin 1) (num_div (num_or v (Fin d)) (Fin c)))"
  using assms by (cases v) simp_all

lemma norm_bz_range: "in_range (- 1) 1 (norm_bz l)"
  by (cases "l_bz l") (simp_all add: norm_bz_def num_or_def num_min_def num_max_def)

lemma toward_upper:
  assumes "at_most 1 s" "at_most 1 t"
  shows "at_most 1 (toward s t)"
proof -
  from assms obtain a b where ab: "s = Fin a" "a \<le> 1" "t = Fin b" "b \<le> 1"
    by (cases s; cases t) simp_all
  then have "a + (b - a) * 0.015 \<le> 1" by (simp add: field_simps)
  with ab show ?thesis by (simp only: toward_Fin range_Fin)
qed

lemma toward_range:
  assumes "in_range lo hi s" "in_range lo hi t"
  shows "in_range lo hi (toward s t)"
proof -
  from assms obtain a b where ab: "s = Fin a" "lo \<le> a" "a \<le> hi" "t = Fin b" "lo \<le> b" "b \<le> hi"
    by (cases s; cases t) simp_all
  then have "lo \<le> a + (b - a) * 0.015 \<and> a + (b - a) * 0.015 \<le> hi"
    by (auto simp: field_simps)
  with ab show ?thesis by (simp only: toward_Fin range_Fin)
qed


lemma smooth_step_upper:
  assumes "finite_latest l" "smooth_upper sm"
  shows "smooth_upper (smooth_step sm l)"
  using assms
  by (simp add: smooth_upper_def smooth_step_def finite_latest_def toward_upper toward_range
      norm_bz_range norm_speed_def norm_density_def norm_bt_def norm_kp_def norm_magnitude_upper)

lemma smooth_step_bounds:
  assumes "nonneg_latest l" "smooth_in_bounds sm"
  shows "smooth_in_bounds (smooth_step sm l)"
  using assms
  by (simp add: smooth_in_bounds_def smooth_step_def nonneg_latest_def toward_range
      norm_bz_range norm_speed_def norm_density_def norm_bt_def norm_kp_def norm_magnitude_range)

lemma animate_tick_upper:
  "tick_ok finite_latest d \<Longrightarrow> smooth_upper sm \<Longrightarrow> smooth_upper (animate_tick sm d)"
  by (cases d) (simp_all add: animate_tick_def tick_ok_def smooth_step_upper)

lemma animate_tick_bounds:
  "tick_ok nonneg_latest d \<Longrightarrow> smooth_in_bounds sm \<Longrightarrow> smooth_in_bounds (animate_tick sm d)"
  by (cases d) (simp_all add: animate_tick_def tick_ok_def smooth_step_bounds)

lemma ticks_upper:
  "list_all (tick_ok finite_latest) ds \<Longrightarrow> smooth_upper sm \<Longrightarrow>
   smooth_upper (foldl animate_tick sm ds)"
  by (induction ds arbitrary: sm) (simp_all add: animate_tick_upper)

lemma ticks_bounds:
  "list_all (tick_ok nonneg_latest) ds \<Longrightarrow> smooth_in_bounds sm \<Longrightarrow>
   smooth_in_bounds (foldl animate_tick sm ds)"
  by (induction ds arbitrary: sm) (simp_all add: animate_tick_bounds)

lemma in_bounds_upper: "smooth_in_bounds sm \<Longrightarrow> smooth_upper sm"
  by (auto simp: smooth_in_bounds_def smooth_upper_def intro: in_range_at_most)

lemma intensity_range:
  assumes "smooth_upper sm"
  shows "in_range 0.15 1.2 (intensity_of sm)"
proof -
  from assms obtain k b z where
    "sm_kp sm = Fin k" "k \<le> 1" "sm_bt sm = Fin b" "b \<le> 1" "sm_bz sm = Fin z" "- 1 \<le> z"
    by (cases "sm_kp sm"; cases "sm_bt sm"; cases "sm_bz sm") (simp_all add: smooth_upper_def)
  then show ?thesis by (simp add: intensity_of_def max_def)
qed

text \<open>
  Claim C7, as the code has it. Start from a smoothed state within its bounds (speed,
  density, bt, kp in [0,1], bz in [-1,1]) and run any number of render ticks on snapshots
  with finite values. If in every snapshot speed, density, bt and kp are not negative, the
  five smoothed scalars stay within those bounds. Whatever the signs, the smoothed speed,
  density, bt and kp stay at most 1 and bz stays in [-1,1] (the code clamps the four
  magnitudes from above only), and the intensity stays between the floor 0.15 and 1.2.
\<close>

theorem smoothing_bounds:
  assumes "smooth_in_bounds sm" and "list_all (tick_ok finite_latest) ds"
  shows
    "(list_all (tick_ok nonneg_latest) ds \<longrightarrow> smooth_in_bounds (foldl animate_tick sm ds)) \<and>
     smooth_upper (foldl animate_tick sm ds) \<and>
     in_range 0.15 1.2 (intensity_of (foldl animate_tick sm ds))"
proof -
  have up: "smooth_upper (foldl animate_tick sm ds)"
    by (rule ticks_upper [OF assms(2) in_bounds_upper [OF assms(1)]])
  have "smooth_in_bounds (foldl animate_tick sm ds)" if "list_all (tick_ok nonneg_latest) ds"
    by (rule ticks_bounds [OF that assms(1)])
  with up intensity_range [OF up] show ?thesis by simp
qed

definition ex_current :: Current where
  "ex_current =
     \<lparr>latest = \<lparr>l_speed = Fin 420.1, l_density = Fin 5.2, l_temp = Fin 98000, l_bt = Fin 4.5,
                l_bz = Fin (- 6), l_kp = Fin 3\<rparr>,
      xray_values = [Fin 0.0000005, Fin 0.0000005],
      c_currentTime = ''2025-02-01 00:00:00.000'', c_progress = 0, c_isLive = True,
      totalPoints = 3, c_index = 0\<rparr>"

text \<open>
  The claim as stated fails for a bounded input with a negative speed. A snapshot whose
  speed is -9999.9 (finite, and a number parseNOAAData passes on as it is) is shown for three
  render ticks from the initial state of line 719: the smoothed speed is then below 0.
\<close>

definition fill_current :: Current where
  "fill_current = ex_current\<lparr>latest := (latest ex_current)\<lparr>l_speed := Fin (- 9999.9)\<rparr>\<rparr>"

theorem smoothing_bounds_counterexample:
  "smooth_in_bounds sm_init \<and>
   list_all (tick_ok finite_latest) [Some fill_current, Some fill_current, Some fill_current] \<and>
   sm_speed (foldl animate_tick sm_init [Some fill_current, Some fill_current, Some fill_current])
     = Fin (- 0.014696762125) \<and>
   \<not> smooth_in_bounds
       (foldl animate_tick sm_init [Some fill_current, Some fill_current, Some fill_current])"
  by (simp add: smooth_in_bounds_def sm_init_def tick_ok_def finite_latest_def fill_current_def
      ex_current_def animate_tick_def smooth_step_def norm_speed_def norm_density_def
      norm_bt_def norm_kp_def norm_bz_def)

theorem smoothing_bounds_witness:
  "smooth_in_bounds sm_init \<and>
   list_all (tick_ok finite_latest) [Some ex_current, None, Some ex_current] \<and>
   list_all (tick_ok nonneg_latest) [Some ex_current, None, Some ex_current] \<and>
   smooth_in_bounds (foldl animate_tick sm_init [Some ex_current, None, Some ex_current]) \<and>
   in_range 0.15 1.2 (intensity_of (foldl animate_tick sm_init [Some ex_current, None, Some ex_current]))"
proof -
  have a: "smooth_in_bounds sm_init" by (simp add: smooth_in_bounds_def sm_init_def)
  have b: "list_all (tick_ok finite_latest) [Some ex_current, None, Some ex_current]"
    by (simp add: tick_ok_def finite_latest_def ex_current_def)
  have c: "list_all (tick_ok nonneg_latest) [Some ex_current, None, Some ex_current]"
    by (simp add: tick_ok_def nonneg_latest_def ex_current_def)
  from smoothing_bounds [OF a b] a b c show ?thesis by blast
qed

subsection \<open>The trail pass on a black scene\<close>

lemma channel_fragment:
  "channel c (trail_fragment f nw pv) = max (channel c nw) (channel c pv * f)"
  by (cases nw; cases pv) (simp add: trail_fragment_def)

lemma trail_tick_read:
  "trailRead (trail_tick f scene st) = map2 (trail_fragment f) scene (trailRead st)"
  by (simp add: trail_tick_def Let_def)

lemma trail_after_length: "length (trailRead (trail_after I st n)) = length (trailRead st)"
  by (induction n) (simp_all add: trail_tick_read black_def)

lemma trail_after_Suc:
  assumes "k < length (trailRead st)"
  shows "channel c (trailRead (trail_after I st (Suc n)) ! k) =
         max 0 (channel c (trailRead (trail_after I st n) ! k) * uFade_of (I n))"
  using assms
  by (simp add: trail_tick_read black_def trail_after_length channel_fragment)

lemma uFade_range:
  assumes "0.15 \<le> i" "i \<le> 1.2"
  shows "0 < uFade_of i" "uFade_of i \<le> 0.846"
  using assms by (simp_all add: uFade_of_def field_simps)

lemma fade_step_abs:
  fixes v f :: real
  assumes "0 < f" "f \<le> q"
  shows "\<bar>max 0 (v * f)\<bar> \<le> \<bar>v\<bar> * q"
proof (cases "0 \<le> v")
  case True
  with assms have "v * f \<le> v * q" by (intro mult_left_mono) simp_all
  moreover from True assms have "0 \<le> v * f" by simp
  ultimately show ?thesis using True by (simp add: max_def)
next
  case False
  with assms have "v * f < 0" by (simp add: mult_neg_pos)
  moreover from assms have "0 \<le> \<bar>v\<bar> * q" by simp
  ultimately show ?thesis by (simp add: max_def)
qed

lemma trail_after_bound:
  assumes I: "\<forall>n. 0.15 \<le> I n \<and> I n \<le> 1.2" and k: "k < length (trailRead st)"
  shows "\<bar>channel c (trailRead (trail_after I st n) ! k)\<bar> \<le>
         \<bar>channel c (trailRead st ! k)\<bar> * 0.846 ^ n"
proof (induction n)
  case 0
  then show ?case by simp
next
  case (Suc n)
  let ?v = "channel c (trailRead (trail_after I st n) ! k)"
  from I have "0.15 \<le> I n" "I n \<le> 1.2" by simp_all
  then have f: "0 < uFade_of (I n)" "uFade_of (I n) \<le> 0.846"
    by (rule uFade_range)+
  have "\<bar>channel c (trailRead (trail_after I st (Suc n)) ! k)\<bar> = \<bar>max 0 (?v * uFade_of (I n))\<bar>"
    by (simp only: trail_after_Suc [OF k])
  also have "\<dots> \<le> \<bar>?v\<bar> * 0.846" by (rule fade_step_abs [OF f])
  also have "\<dots> \<le> (\<bar>channel c (trailRead st ! k)\<bar> * 0.846 ^ n) * 0.846"
    using Suc.IH by (intro mult_right_mono) simp_all
  finally show ?case by (simp add: mult_ac)
qed

lemma trail_after_limit:
  assumes I: "\<forall>n. 0.15 \<le> I n \<and> I n \<le> 1.2" and k: "k < length (trailRead st)"
  shows "(\<lambda>n. channel c (trailRead (trail_after I st n) ! k)) \<longlonglongrightarrow> 0"
proof (rule tendsto_0_le [where f = "\<lambda>n. (0.846::real) ^ n" and K = "\<bar>channel c (trailRead st ! k)\<bar>"])
  show "(\<lambda>n. (0.846::real) ^ n) \<longlonglongrightarrow> 0"
    by (rule LIMSEQ_realpow_zero) simp_all
  show "\<forall>\<^sub>F n in sequentially.
          norm (channel c (trailRead (trail_after I st n) ! k)) \<le>
          norm ((0.846::real) ^ n) * \<bar>channel c (trailRead st ! k)\<bar>"
    using trail_after_bound [OF I k, of c] by (intro always_eventually) (simp add: mult_ac)
qed


lemma fade_step_le:
  fixes v f :: real
  assumes "0 < f" "f \<le> 1"
  shows "max 0 (v * f) \<le> max 0 v"
proof (cases "0 \<le> v")
  case True
  with assms have "v * f \<le> v * 1" by (intro mult_left_mono) simp_all
  with True show ?thesis by (simp add: max_def)
next
  case False
  with assms have "v * f < 0" by (simp add: mult_neg_pos)
  with False show ?thesis by (simp add: max_def)
qed

lemma reachable_intensity:
  assumes "smooth_in_bounds sm" "list_all (tick_ok finite_latest) ds"
  shows "in_range 0.15 1.2 (intensity_of (foldl animate_tick sm ds))"
  by (rule intensity_range [OF ticks_upper [OF assms(2) in_bounds_upper [OF assms(1)]]])

text \<open>
  Claim C8. Each channel of the blended texel is the maximum of the new value and of the
  previous value times the fade factor, not their sum. The intensity of every state the
  smoothing reaches from an in-bounds state on finite snapshots lies between 0.15 and 1.2,
  and for such intensities the fade factor 0.75 + intensity * 0.08 lies strictly between 0
  and 1. With a scene target that stays black, a channel \<open>v\<close> of a texel of the trail
  target becomes \<open>max 0 (v * fade)\<close> at each tick; its absolute value never grows, it
  never exceeds the brightness \<open>max 0 v\<close> it had, and it tends to 0.
\<close>

theorem trail_converges_to_black:
  assumes "\<forall>n. 0.15 \<le> I n \<and> I n \<le> 1.2" and "k < length (trailRead st)"
  shows
    "(\<forall>f nw pv. channel c (trail_fragment f nw pv) = max (channel c nw) (channel c pv * f)) \<and>
     (\<forall>sm ds. smooth_in_bounds sm \<and> list_all (tick_ok finite_latest) ds \<longrightarrow>
        in_range 0.15 1.2 (intensity_of (foldl animate_tick sm ds))) \<and>
     (\<forall>n. 0 < uFade_of (I n) \<and> uFade_of (I n) < 1) \<and>
     (\<forall>n. channel c (trailRead (trail_after I st (Suc n)) ! k) =
          max 0 (channel c (trailRead (trail_after I st n) ! k) * uFade_of (I n))) \<and>
     (\<forall>n. \<bar>channel c (trailRead (trail_after I st (Suc n)) ! k)\<bar> \<le>
          \<bar>channel c (trailRead (trail_after I st n) ! k)\<bar>) \<and>
     (\<forall>n. channel c (trailRead (trail_after I st (Suc n)) ! k) \<le>
          max 0 (channel c (trailRead (trail_after I st n) ! k))) \<and>
     (\<lambda>n. channel c (trailRead (trail_after I st n) ! k)) \<longlonglongrightarrow> 0"
proof -
  have f: "0 < uFade_of (I n) \<and> uFade_of (I n) \<le> 0.846" for n
  proof -
    from assms(1) have "0.15 \<le> I n" "I n \<le> 1.2" by simp_all
    then show ?thesis by (intro conjI uFade_range)
  qed
  have f1: "uFade_of (I n) < 1" for n
    using f [of n] by simp
  have a: "\<forall>f nw pv. channel c (trail_fragment f nw pv) = max (channel c nw) (channel c pv * f)"
    by (simp add: channel_fragment)
  have b: "\<forall>sm ds. smooth_in_bounds sm \<and> list_all (tick_ok finite_latest) ds \<longrightarrow>
        in_range 0.15 1.2 (intensity_of (foldl animate_tick sm ds))"
    by (intro allI impI reachable_intensity) simp_all
  have c: "\<forall>n. 0 < uFade_of (I n) \<and> uFade_of (I n) < 1"
    using f f1 by simp
  have d: "\<forall>n. channel c (trailRead (trail_after I st (Suc n)) ! k) =
          max 0 (channel c (trailRead (trail_after I st n) ! k) * uFade_of (I n))"
    by (intro allI trail_after_Suc [OF assms(2)])
  have e: "\<forall>n. \<bar>channel c (trailRead (trail_after I st (Suc n)) ! k)\<bar> \<le>
          \<bar>channel c (trailRead (trail_after I st n) ! k)\<bar>"
  proof
    fix n
    let ?v = "channel c (trailRead (trail_after I st n) ! k)"
    have "\<bar>max 0 (?v * uFade_of (I n))\<bar> \<le> \<bar>?v\<bar> * 1"
      using f [of n] f1 [of n] by (intro fade_step_abs) simp_all
    then show "\<bar>channel c (trailRead (trail_after I st (Suc n)) ! k)\<bar> \<le> \<bar>?v\<bar>"
      by (simp only: trail_after_Suc [OF assms(2)] mult_1_right)
  qed
  have g: "\<forall>n. channel c (trailRead (trail_after I st (Suc n)) ! k) \<le>
          max 0 (channel c (trailRead (trail_after I st n) ! k))"
  proof
    fix n
    let ?v = "channel c (trailRead (trail_after I st n) ! k)"
    have "max 0 (?v * uFade_of (I n)) \<le> max 0 ?v"
      using f [of n] f1 [of n] by (intro fade_step_le) simp_all
    then show "channel c (trailRead (trail_after I st (Suc n)) ! k) \<le> max 0 ?v"
      by (simp only: trail_after_Suc [OF assms(2)])
  qed
  have h: "(\<lambda>n. channel c (trailRead (trail_after I st n) ! k)) \<longlonglongrightarrow> 0"
    by (rule trail_after_limit [OF assms])
  show ?thesis by (intro conjI a b c d e g h)
qed

definition ex_trail :: Trail where
  "ex_trail = \<lparr>trailRead = [(1, 0.5, 0.25, 1)], trailWrite = [(0, 0, 0, 0)]\<rparr>"

theorem trail_converges_to_black_witness:
  "trailRead (trail_after (\<lambda>n. 0.15) ex_trail (Suc 0)) = [(0.762, 0.381, 0.1905, 0.762)] \<and>
   (\<lambda>n. channel 0 (trailRead (trail_after (\<lambda>n. 0.15) ex_trail n) ! 0)) \<longlonglongrightarrow> 0"
proof -
  have a: "\<forall>n::nat. (0.15::real) \<le> 0.15 \<and> (0.15::real) \<le> 1.2" by simp
  have b: "0 < length (trailRead ex_trail)" by (simp add: ex_trail_def)
  have c: "trailRead (trail_after (\<lambda>n. 0.15) ex_trail (Suc 0)) = [(0.762, 0.381, 0.1905, 0.762)]"
    by (simp add: ex_trail_def trail_tick_read black_def trail_fragment_def uFade_of_def)
  from trail_converges_to_black [OF a b, of 0] c show ?thesis by blast
qed

section \<open>Sonification Engine\<close>

text \<open>
  The thirteen audio nodes the engine owns, one per field of the object. A field is
  \<^verbatim>\<open>undefined\<close> until start assigns it a node; stop disposes the node and leaves the
  field pointing at it.
\<close>

datatype node =
    Master | Reverb | Delay | Chorus | BreathLFO | Wind | BzPad | Pluck | NoiseFilter | Noise
  | Bell | Sub | Shimmer

datatype node_state = Live | Disposed

record SonEngine =
  on :: bool
  nodes :: "node \<Rightarrow> node_state option"
  lastPluck :: "real option"
  lastBell :: "real option"

text \<open>The constructor (line 249).\<close>

definition new_engine :: SonEngine where
  "new_engine = \<lparr>on = False, nodes = (\<lambda>n. None), lastPluck = None, lastBell = None\<rparr>"

text \<open>
  What the engine does to the audio library is the list of the calls it makes, in order.
  The wiring of the nodes (\<^verbatim>\<open>connect\<close>, \<^verbatim>\<open>toDestination\<close>) is left out.
\<close>

datatype call =
    ToneStart
  | SetBpm real
  | New node
  | StartNode node
  | SetNote num
  | WindTriggerAttack num real
  | ReleaseAll real
  | PadTriggerAttack "num list" real
  | PluckTriggerAttack "string option" real
  | SetBaseFrequency num
  | RampVolume num real
  | BellTriggerAttackRelease "string option" real
  | SubTriggerAttackRelease num real
  | ShimmerTriggerAttackRelease real real
  | SetBreathMin num
  | SetBreathMax num
  | Dispose node

text \<open>
  What a call of update takes from its environment: the audio clock \<^verbatim>\<open>Tone.now()\<close>,
  the successive results of \<^verbatim>\<open>Math.random()\<close> during the call, and which calls into
  the audio library throw (update catches each of them).
\<close>

record AudioEnv =
  tone_now :: real
  math_random :: "nat \<Rightarrow> real"
  throws :: "call \<Rightarrow> bool"

subsection \<open>start and stop\<close>

text \<open>
  Lines 251-316. The argument is the outcome of \<^verbatim>\<open>await Tone.start()\<close>: \<open>None\<close>
  when it resolves, the error when it rejects, in which case start rejects with it before it
  has changed the engine. Two calls of start that overlap in time are not modelled.
\<close>

definition start :: "js_error option \<Rightarrow> SonEngine \<Rightarrow> (js_error + SonEngine) \<times> call list" where
  "start tone_start e =
     (if on e then (Inr e, [])
      else
        (case tone_start of
           Some err \<Rightarrow> (Inl err, [ToneStart])
         | None \<Rightarrow>
             (Inr (e\<lparr>nodes := (\<lambda>n. Some Live), on := True, lastPluck := Some 0,
                     lastBell := Some 0\<rparr>),
              [ToneStart, SetBpm 60, New Master, New Reverb, New Delay, New Chorus,
               New BreathLFO, StartNode BreathLFO, New Wind, New BzPad, New Pluck,
               New NoiseFilter, StartNode NoiseFilter, New Noise, StartNode Noise, New Bell,
               New Sub, New Shimmer])))"

text \<open>Lines 381-389: \<^verbatim>\<open>x?.dispose()\<close> for each field, in the order of the array.\<close>

definition dispose_order :: "node list" where
  "dispose_order =
     [Wind, BzPad, Pluck, Noise, Bell, Sub, Shimmer, NoiseFilter, Chorus, Delay, Reverb,
      BreathLFO, Master]"

definition stop :: "SonEngine \<Rightarrow> SonEngine \<times> call list" where
  "stop e =
     (if \<not> on e then (e, [])
      else
        (e\<lparr>nodes := (\<lambda>n. map_option (\<lambda>s. Disposed) (nodes e n)), on := False\<rparr>,
         map Dispose (filter (\<lambda>n. nodes e n \<noteq> None) dispose_order)))"

subsection \<open>update\<close>

text \<open>
  \<^verbatim>\<open>notes[Math.floor(Math.random() * notes.length)]\<close>: \<open>None\<close> is
  \<^verbatim>\<open>undefined\<close>, which a draw between 0 and 1 never gives.
\<close>

definition pick :: "string list \<Rightarrow> real \<Rightarrow> string option" where
  "pick notes r =
     (let i = \<lfloor>r * real (length notes)\<rfloor>
      in if 0 \<le> i \<and> i < int (length notes) then Some (notes ! nat i) else None)"

text \<open>Lines 328-330: the wind drone.\<close>

definition wind_stage :: "AudioEnv \<Rightarrow> num \<Rightarrow> real \<Rightarrow> call list" where
  "wind_stage env sN now_t =
     (let f = num_add (Fin 35) (num_mul sN (Fin 65))
      in if throws env (SetNote f) then [SetNote f, WindTriggerAttack f now_t]
         else [SetNote f])"

text \<open>Lines 333-343: the chord of the pad.\<close>

definition pad_stage :: "AudioEnv \<Rightarrow> num \<Rightarrow> real \<Rightarrow> call list" where
  "pad_stage env bzN now_t =
     (if throws env (ReleaseAll now_t) then [ReleaseAll now_t]
      else
        (let root = num_add (Fin 175) (num_mul bzN (Fin 40))
         in [ReleaseAll now_t,
             PadTriggerAttack
               (if num_lt bzN (Fin (- 0.3))
                then [root, num_mul root (Fin 1.189), num_mul root (Fin 1.414),
                      num_mul root (Fin 1.682)]
                else if num_lt bzN (Fin 0.1)
                then [root, num_mul root (Fin 1.189), num_mul root (Fin 1.498)]
                else [root, num_mul root (Fin 1.26), num_mul root (Fin 1.5),
                      num_mul root (Fin 2)])
               now_t]))"

text \<open>
  Lines 346-351: the plucks. The result is the engine, the position in the sequence of
  draws, and the calls. A field that is still \<^verbatim>\<open>undefined\<close> makes the difference
  NaN and the comparison false.
\<close>

definition pluck_stage :: "AudioEnv \<Rightarrow> SonEngine \<Rightarrow> num \<Rightarrow> real \<Rightarrow> nat \<Rightarrow> SonEngine \<times> nat \<times> call list" where
  "pluck_stage env e dN now_t k =
     (if (case lastPluck e of
            None \<Rightarrow> False
          | Some lp \<Rightarrow>
              num_lt (num_div (Fin 0.3) (num_add (Fin 0.2) dN)) (Fin (now_t - lp)))
      then (e\<lparr>lastPluck := Some now_t\<rparr>, k + 1,
            [PluckTriggerAttack
               (pick [''C3'', ''D3'', ''E3'', ''G3'', ''A3'', ''C4'', ''D4'', ''E4'', ''G4'', ''A4'',
                      ''C5''] (math_random env k)) now_t])
      else (e, k, []))"

text \<open>Lines 354-357: the noise.\<close>

definition noise_stage :: "AudioEnv \<Rightarrow> num \<Rightarrow> call list" where
  "noise_stage env btN =
     (let bf = SetBaseFrequency (num_add (Fin 80) (num_mul btN (Fin 2500)))
      in if throws env bf then [bf]
         else [bf, RampVolume (num_add (Fin (- 38)) (num_mul btN (Fin 18))) 2])"

text \<open>
  Line 360: \<^verbatim>\<open>d.xray_values?.[d.xray_values.length - 1] || 0\<close>, the last flux
  reading of the snapshot, or 0 when there is none or it is falsy.
\<close>

definition xv_of :: "Current \<Rightarrow> num" where
  "xv_of c = num_or (case xray_values c of [] \<Rightarrow> NaN | x # xs \<Rightarrow> last (x # xs)) (Fin 0)"

text \<open>Lines 361-365: the bell, with its threshold 4e-7 and its cooldown 1.5.\<close>

definition bell_stage :: "AudioEnv \<Rightarrow> SonEngine \<Rightarrow> Current \<Rightarrow> real \<Rightarrow> nat \<Rightarrow> SonEngine \<times> nat \<times> call list" where
  "bell_stage env e c now_t k =
     (if num_lt (Fin 0.0000004) (xv_of c) \<and>
         (case lastBell e of None \<Rightarrow> False | Some lb \<Rightarrow> 1.5 < now_t - lb)
      then (e\<lparr>lastBell := Some now_t\<rparr>, k + 1,
            [BellTriggerAttackRelease
               (pick [''E5'', ''G5'', ''B5'', ''D6'', ''F#6''] (math_random env k)) now_t])
      else (e, k, []))"

text \<open>Lines 368-370: the sub-bass; the draw is taken only above the Kp threshold.\<close>

definition sub_stage :: "AudioEnv \<Rightarrow> num \<Rightarrow> real \<Rightarrow> nat \<Rightarrow> nat \<times> call list" where
  "sub_stage env kpN now_t k =
     (if num_lt (Fin 0.35) kpN
      then (k + 1,
            if num_lt (Fin (math_random env k)) (num_mul kpN (Fin 0.25))
            then [SubTriggerAttackRelease (num_add (Fin 25) (num_mul kpN (Fin 25))) now_t]
            else [])
      else (k, []))"

text \<open>Lines 373-375: the shimmer.\<close>

definition shimmer_stage :: "AudioEnv \<Rightarrow> num \<Rightarrow> num \<Rightarrow> num \<Rightarrow> real \<Rightarrow> nat \<Rightarrow> call list" where
  "shimmer_stage env sN btN kpN now_t k =
     (if num_lt (Fin 1.8) (num_add (num_add sN btN) kpN) \<and> math_random env k < 0.15
      then [ShimmerTriggerAttackRelease (800 + math_random env (k + 1) * 1200) now_t]
      else [])"

text \<open>Line 378: the depth of the breathing oscillator.\<close>

definition breath_stage :: "AudioEnv \<Rightarrow> num \<Rightarrow> num \<Rightarrow> call list" where
  "breath_stage env sN kpN =
     (let mn = SetBreathMin (num_add (Fin 0.1) (num_mul (num_add sN kpN) (Fin 0.05)))
      in if throws env mn then [mn]
         else [mn, SetBreathMax (num_add (Fin 0.2) (num_mul (num_add sN kpN) (Fin 0.1)))])"

text \<open>Lines 318-379. A null record is \<open>None\<close>.\<close>

definition update :: "AudioEnv \<Rightarrow> SonEngine \<Rightarrow> Current option \<Rightarrow> SonEngine \<times> call list" where
  "update env e d =
     (case d of
        None \<Rightarrow> (e, [])
      | Some c \<Rightarrow>
          if \<not> on e then (e, [])
          else
            (let l = latest c;
                 sN = norm_speed l;
                 dN = norm_density l;
                 bzN = norm_bz l;
                 btN = norm_bt l;
                 kpN = norm_kp l;
                 now_t = tone_now env
             in case pluck_stage env e dN now_t 0 of
                  (e1, k1, pluck_calls) \<Rightarrow>
                    (case bell_stage env e1 c now_t k1 of
                       (e2, k2, bell_calls) \<Rightarrow>
                         (case sub_stage env kpN now_t k2 of
                            (k3, sub_calls) \<Rightarrow>
                              (e2,
                               wind_stage env sN now_t @ pad_stage env bzN now_t @
                               pluck_calls @ noise_stage env btN @ bell_calls @ sub_calls @
                               shimmer_stage env sN btN kpN now_t k3 @
                               breath_stage env sN kpN)))))"


text \<open>The number of bell triggers among the calls of an update.\<close>

fun is_bell :: "call \<Rightarrow> bool" where
  "is_bell (BellTriggerAttackRelease note t) = True"
| "is_bell other = False"

definition bells :: "call list \<Rightarrow> nat" where
  "bells calls = length (filter is_bell calls)"

section \<open>Properties of the Sonification Engine\<close>

subsection \<open>The bell trigger\<close>


lemma bells_Nil: "bells [] = 0"
  by (simp add: bells_def)
















text \<open>
  A snapshot with a given flux reading, an environment at a given time of the audio clock,
  and the engine as start leaves it.
\<close>

definition flux_current :: "real \<Rightarrow> Current" where
  "flux_current v = ex_current\<lparr>xray_values := [Fin v, Fin v]\<rparr>"

definition audio_at :: "real \<Rightarrow> AudioEnv" where
  "audio_at t = \<lparr>tone_now = t, math_random = (\<lambda>k. 0.5), throws = (\<lambda>c. False)\<rparr>"

definition started_engine :: SonEngine where
  "started_engine =
     \<lparr>on = True, nodes = (\<lambda>n. Some Live), lastPluck = Some 0, lastBell = Some 0\<rparr>"

lemma start_new_engine: "fst (start None new_engine) = Inr started_engine"
  by (simp add: start_def new_engine_def started_engine_def)



subsection \<open>The guards on the on flag\<close>

text \<open>
  Claim C10. Each of the three operations of the engine begins with a guard on the on flag:
  start on an engine that is on makes no call (it allocates nothing) and returns the engine
  as it is; update on an engine that is off, or with a null record, makes no call and
  returns the engine as it is; and so does stop on an engine that is off.
\<close>

theorem gated_by_on:
  "(on e \<longrightarrow> start tone_start e = (Inr e, [])) \<and>
   (\<not> on e \<or> d = None \<longrightarrow> update env e d = (e, [])) \<and>
   (\<not> on e \<longrightarrow> stop e = (e, []))"
  by (auto simp: start_def update_def stop_def split: option.splits)

theorem gated_by_on_witness:
  "start None started_engine = (Inr started_engine, []) \<and>
   update (audio_at 2) new_engine (Some (flux_current 0.0000009)) = (new_engine, []) \<and>
   update (audio_at 2) started_engine None = (started_engine, []) \<and>
   stop new_engine = (new_engine, [])"
proof -
  have a: "on started_engine" by (simp add: started_engine_def)
  have b: "\<not> on new_engine" by (simp add: new_engine_def)
  from gated_by_on [of started_engine None] gated_by_on [of new_engine]
    gated_by_on [of started_engine _ None] a b
  show ?thesis by blast
qed

end
